theory Spec2Isabelle
  imports Main
begin

text \<open>
  A shallow embedding of the convolution routines of the notebooks
  (\<open>filter_image\<close>, \<open>filter_images_v1\<close>, \<open>filter_images_v2\<close>,
  \<open>filter_images_v3\<close> and the JAX layer \<open>Conv2D\<close>), and the proofs of what the
  specification says about them. Every numpy operation the routines use is modelled
  with the errors it raises; a result is \<open>Inr\<close> a value or \<open>Inl\<close> the exception.
\<close>

section \<open>Python and numpy values\<close>

text \<open>
  The notebooks compute with numpy arrays of floats. The elements are modelled by an
  arbitrary commutative ring \<open>'a\<close> (exact arithmetic); every shape is a tuple of
  naturals, every Python integer that can become negative is an \<open>int\<close>, and
  \<open>//\<close> is floor division, which is \<open>div\<close> on \<open>int\<close>.
\<close>

datatype error = ValueError | ZeroDivisionError | IndexError | NameError

text \<open>
  An array of rank 3 or 4 is its \<open>shape\<close> together with its elements as nested
  lists (what \<open>tolist()\<close> returns). The shape is kept explicitly because an array
  with an axis of length 0 has no elements from which the later axes could be read.
\<close>

datatype 'a arr3 = Arr3 (shape3: "nat \<times> nat \<times> nat") (vals3: "'a list list list")

datatype 'a arr4 = Arr4 (shape4: "nat \<times> nat \<times> nat \<times> nat") (vals4: "'a list list list list")

text \<open>What \<open>np.array\<close> and \<open>+\<close> can return in \<open>filter_images_v1\<close>: rank 1 or rank 4.\<close>

datatype 'a ndarray = Rank1 "'a list" | Rank4 "'a arr4"

definition wf3 :: "'a arr3 \<Rightarrow> bool" where
  "wf3 x = (case shape3 x of (a, b, c) \<Rightarrow>
     length (vals3 x) = a \<and>
     list_all (\<lambda>p. length p = b \<and> list_all (\<lambda>r. length r = c) p) (vals3 x))"

definition wf4 :: "'a arr4 \<Rightarrow> bool" where
  "wf4 x = (case shape4 x of (n, a, b, c) \<Rightarrow>
     length (vals4 x) = n \<and>
     list_all (\<lambda>img. length img = a \<and>
       list_all (\<lambda>p. length p = b \<and> list_all (\<lambda>r. length r = c) p) img) (vals4 x))"

definition at3 :: "'a arr3 \<Rightarrow> nat \<Rightarrow> nat \<Rightarrow> nat \<Rightarrow> 'a" where
  "at3 x i j k = vals3 x ! i ! j ! k"

definition at4 :: "'a arr4 \<Rightarrow> nat \<Rightarrow> nat \<Rightarrow> nat \<Rightarrow> nat \<Rightarrow> 'a" where
  "at4 x m i j k = vals4 x ! m ! i ! j ! k"

definition tab3 :: "nat \<Rightarrow> nat \<Rightarrow> nat \<Rightarrow> (nat \<Rightarrow> nat \<Rightarrow> nat \<Rightarrow> 'a) \<Rightarrow> 'a list list list" where
  "tab3 a b c f = map (\<lambda>i. map (\<lambda>j. map (\<lambda>k. f i j k) [0..<c]) [0..<b]) [0..<a]"

definition tab4 :: "nat \<Rightarrow> nat \<Rightarrow> nat \<Rightarrow> nat \<Rightarrow> (nat \<Rightarrow> nat \<Rightarrow> nat \<Rightarrow> nat \<Rightarrow> 'a) \<Rightarrow> 'a list list list list" where
  "tab4 n a b c f = map (\<lambda>m. tab3 a b c (f m)) [0..<n]"

text \<open>\<open>np.zeros(shape)\<close>, after the check that no dimension is negative.\<close>

definition np_zeros3 :: "nat \<times> nat \<times> nat \<Rightarrow> 'a::comm_ring_1 arr3" where
  "np_zeros3 s = (case s of (a, b, c) \<Rightarrow> Arr3 s (replicate a (replicate b (replicate c 0))))"

definition np_zeros4 :: "nat \<times> nat \<times> nat \<times> nat \<Rightarrow> 'a::comm_ring_1 arr4" where
  "np_zeros4 s = (case s of (n, a, b, c) \<Rightarrow>
     Arr4 s (replicate n (replicate a (replicate b (replicate c 0)))))"

subsection \<open>Ranges and slices\<close>

text \<open>
  \<open>range(start, stop, step)\<close>. A zero step raises in Python; every caller below has
  divided by the step before, so that call is never reached and the model gives \<open>[]\<close>.
\<close>

definition py_range :: "int \<Rightarrow> int \<Rightarrow> int \<Rightarrow> int list" where
  "py_range start stop step =
     (if 0 < step then map (\<lambda>k. start + int k * step) [0..<nat ((stop - start + step - 1) div step)]
      else if step < 0 then map (\<lambda>k. start + int k * step) [0..<nat ((start - stop - step - 1) div (- step))]
      else [])"

text \<open>A slice bound on an axis of length \<open>n\<close>: negative bounds count from the end, then clip.\<close>

definition clip_index :: "nat \<Rightarrow> int \<Rightarrow> nat" where
  "clip_index n i = (let j = (if i < 0 then i + int n else i)
     in if j < 0 then 0 else if int n < j then n else nat j)"

definition py_slice :: "'b list \<Rightarrow> int \<Rightarrow> int \<Rightarrow> 'b list" where
  "py_slice xs lo hi = take (clip_index (length xs) hi - clip_index (length xs) lo)
                            (drop (clip_index (length xs) lo) xs)"

definition slice_len :: "nat \<Rightarrow> int \<Rightarrow> int \<Rightarrow> nat" where
  "slice_len n lo hi = clip_index n hi - clip_index n lo"

text \<open>\<open>image[ix:ix+km, jx:jx+kn, :]\<close> and \<open>images[:, ix:ix+km, jx:jx+kn, :]\<close>.\<close>

definition slice3 :: "'a arr3 \<Rightarrow> int \<Rightarrow> int \<Rightarrow> int \<Rightarrow> int \<Rightarrow> 'a arr3" where
  "slice3 x lo hi lo' hi' = (case shape3 x of (a, b, c) \<Rightarrow>
     Arr3 (slice_len a lo hi, slice_len b lo' hi', c)
          (map (\<lambda>p. py_slice p lo' hi') (py_slice (vals3 x) lo hi)))"

definition slice4 :: "'a arr4 \<Rightarrow> int \<Rightarrow> int \<Rightarrow> int \<Rightarrow> int \<Rightarrow> 'a arr4" where
  "slice4 x lo hi lo' hi' = (case shape4 x of (n, a, b, c) \<Rightarrow>
     Arr4 (n, slice_len a lo hi, slice_len b lo' hi', c)
          (map (\<lambda>img. map (\<lambda>p. py_slice p lo' hi') (py_slice img lo hi)) (vals4 x)))"

text \<open>\<open>filters[:,:,:,channel]\<close>, for a channel that is not negative.\<close>

definition filters_chan :: "'a arr4 \<Rightarrow> nat \<Rightarrow> error + 'a arr3" where
  "filters_chan f channel = (case shape4 f of (km, kn, ni, no) \<Rightarrow>
     if channel < no then Inr (Arr3 (km, kn, ni) (map (map (map (\<lambda>v. v ! channel))) (vals4 f)))
     else Inl IndexError)"

subsection \<open>Broadcasting\<close>

text \<open>
  Two axis lengths broadcast when they are equal or one of them is 1; an axis of
  length 1 is then read at index 0 for every index of the result.
\<close>

definition bdim :: "nat \<Rightarrow> nat \<Rightarrow> nat option" where
  "bdim x y = (if x = y then Some x else if x = 1 then Some y else if y = 1 then Some x else None)"

definition bidx :: "nat \<Rightarrow> nat \<Rightarrow> nat" where
  "bidx d i = (if d = 1 then 0 else i)"

text \<open>\<open>a * x\<close> for \<open>a\<close> of rank 3 and \<open>x\<close> of rank 3 or 4 (\<open>a\<close> gets a leading axis of length 1).\<close>

definition mul33 :: "'a::comm_ring_1 arr3 \<Rightarrow> 'a arr3 \<Rightarrow> error + 'a arr3" where
  "mul33 a x = (case shape3 a of (a1, a2, a3) \<Rightarrow> case shape3 x of (b1, b2, b3) \<Rightarrow>
     (case bdim a1 b1 of None \<Rightarrow> Inl ValueError | Some d1 \<Rightarrow>
     (case bdim a2 b2 of None \<Rightarrow> Inl ValueError | Some d2 \<Rightarrow>
     (case bdim a3 b3 of None \<Rightarrow> Inl ValueError | Some d3 \<Rightarrow>
        Inr (Arr3 (d1, d2, d3) (tab3 d1 d2 d3 (\<lambda>i j k.
               at3 a (bidx a1 i) (bidx a2 j) (bidx a3 k) * at3 x (bidx b1 i) (bidx b2 j) (bidx b3 k))))))))"

definition mul34 :: "'a::comm_ring_1 arr3 \<Rightarrow> 'a arr4 \<Rightarrow> error + 'a arr4" where
  "mul34 a x = (case shape3 a of (a1, a2, a3) \<Rightarrow> case shape4 x of (n, b1, b2, b3) \<Rightarrow>
     (case bdim a1 b1 of None \<Rightarrow> Inl ValueError | Some d1 \<Rightarrow>
     (case bdim a2 b2 of None \<Rightarrow> Inl ValueError | Some d2 \<Rightarrow>
     (case bdim a3 b3 of None \<Rightarrow> Inl ValueError | Some d3 \<Rightarrow>
        Inr (Arr4 (n, d1, d2, d3) (tab4 n d1 d2 d3 (\<lambda>m i j k.
               at3 a (bidx a1 i) (bidx a2 j) (bidx a3 k) * at4 x m (bidx b1 i) (bidx b2 j) (bidx b3 k))))))))"

text \<open>\<open>np.sum(p)\<close> and \<open>np.sum(p, axis=(1,2,3))\<close>.\<close>

definition sum_img :: "'a::comm_ring_1 list list list \<Rightarrow> 'a" where
  "sum_img v = sum_list (map (\<lambda>p. sum_list (map sum_list p)) v)"

definition np_sum3 :: "'a::comm_ring_1 arr3 \<Rightarrow> 'a" where
  "np_sum3 p = sum_img (vals3 p)"

definition np_sum_axes123 :: "'a::comm_ring_1 arr4 \<Rightarrow> 'a list" where
  "np_sum_axes123 p = map sum_img (vals4 p)"

subsection \<open>Element reads and writes\<close>

text \<open>\<open>x[m, i, j, k]\<close> with indices that are not negative.\<close>

definition get4 :: "'a arr4 \<Rightarrow> nat \<Rightarrow> nat \<Rightarrow> nat \<Rightarrow> nat \<Rightarrow> error + 'a" where
  "get4 x m i j k = (case shape4 x of (n, a, b, c) \<Rightarrow>
     if m < n \<and> i < a \<and> j < b \<and> k < c then Inr (at4 x m i j k) else Inl IndexError)"

text \<open>\<open>y[i, j, k] = v\<close>.\<close>

definition set3 :: "'a arr3 \<Rightarrow> nat \<Rightarrow> nat \<Rightarrow> nat \<Rightarrow> 'a \<Rightarrow> error + 'a arr3" where
  "set3 y i j k v = (case shape3 y of (a, b, c) \<Rightarrow>
     if i < a \<and> j < b \<and> k < c
     then Inr (Arr3 (a, b, c) ((vals3 y)[i := (vals3 y ! i)[j := (vals3 y ! i ! j)[k := v]]]))
     else Inl IndexError)"

text \<open>\<open>y[m, i, j, k] = v\<close>.\<close>

definition set4 :: "'a arr4 \<Rightarrow> nat \<Rightarrow> nat \<Rightarrow> nat \<Rightarrow> nat \<Rightarrow> 'a \<Rightarrow> error + 'a arr4" where
  "set4 y m i j k v = (case shape4 y of (n, a, b, c) \<Rightarrow>
     if m < n \<and> i < a \<and> j < b \<and> k < c
     then Inr (Arr4 (n, a, b, c)
            ((vals4 y)[m := (vals4 y ! m)[i := (vals4 y ! m ! i)[j := (vals4 y ! m ! i ! j)[k := v]]]]))
     else Inl IndexError)"

text \<open>
  \<open>y[:, i, j, k] = vec\<close>: the vector must have the length of the first axis, or
  length 1 (it is then broadcast).
\<close>

definition set4_col :: "'a arr4 \<Rightarrow> nat \<Rightarrow> nat \<Rightarrow> nat \<Rightarrow> 'a list \<Rightarrow> error + 'a arr4" where
  "set4_col y i j k vec = (case shape4 y of (n, a, b, c) \<Rightarrow>
     if \<not> (i < a \<and> j < b \<and> k < c) then Inl IndexError
     else if length vec = n \<or> length vec = 1
     then Inr (Arr4 (n, a, b, c) (map (\<lambda>m.
            (vals4 y ! m)[i := (vals4 y ! m ! i)[j := (vals4 y ! m ! i ! j)[k := vec ! bidx (length vec) m]]])
            [0..<n]))
     else Inl ValueError)"

subsection \<open>Adding the bias vector\<close>

text \<open>\<open>y += biases\<close>: in place, so the broadcast shape must be the shape of \<open>y\<close>.\<close>

definition iadd_biases :: "'a::comm_ring_1 arr4 \<Rightarrow> 'a list \<Rightarrow> error + 'a arr4" where
  "iadd_biases y biases = (case shape4 y of (n, a, b, c) \<Rightarrow>
     if length biases = c \<or> length biases = 1
     then Inr (Arr4 (n, a, b, c) (tab4 n a b c (\<lambda>m i j k.
            at4 y m i j k + biases ! bidx (length biases) k)))
     else Inl ValueError)"

text \<open>\<open>outputs + biases\<close>: a new array of the broadcast shape.\<close>

definition add_biases4 :: "'a::comm_ring_1 arr4 \<Rightarrow> 'a list \<Rightarrow> error + 'a arr4" where
  "add_biases4 y biases = (case shape4 y of (n, a, b, c) \<Rightarrow>
     (case bdim c (length biases) of None \<Rightarrow> Inl ValueError
      | Some d \<Rightarrow> Inr (Arr4 (n, a, b, d) (tab4 n a b d (\<lambda>m i j k.
            at4 y m i j (bidx c k) + biases ! bidx (length biases) k)))))"

fun add_biases :: "'a::comm_ring_1 ndarray \<Rightarrow> 'a list \<Rightarrow> error + 'a ndarray" where
  "add_biases (Rank1 xs) biases =
     (case bdim (length xs) (length biases) of None \<Rightarrow> Inl ValueError
      | Some d \<Rightarrow> Inr (Rank1 (map (\<lambda>k. xs ! bidx (length xs) k + biases ! bidx (length biases) k) [0..<d])))"
| "add_biases (Rank4 y) biases =
     (case add_biases4 y biases of Inl e \<Rightarrow> Inl e | Inr z \<Rightarrow> Inr (Rank4 z))"

subsection \<open>Loops, comprehensions, and stacking\<close>

text \<open>A \<open>for\<close> loop over a list, threading the loop's state; an exception ends it.\<close>

primrec for_each :: "'b list \<Rightarrow> ('b \<Rightarrow> 's \<Rightarrow> error + 's) \<Rightarrow> 's \<Rightarrow> error + 's" where
  "for_each [] body s = Inr s"
| "for_each (k # ks) body s =
     (case body k s of Inl e \<Rightarrow> Inl e | Inr s' \<Rightarrow> for_each ks body s')"

text \<open>A list comprehension \<open>[f(x) for x in xs]\<close>.\<close>

primrec comprehension :: "('b \<Rightarrow> error + 'c) \<Rightarrow> 'b list \<Rightarrow> error + 'c list" where
  "comprehension f [] = Inr []"
| "comprehension f (x # xs) =
     (case f x of Inl e \<Rightarrow> Inl e
      | Inr y \<Rightarrow> (case comprehension f xs of Inl e \<Rightarrow> Inl e | Inr ys \<Rightarrow> Inr (y # ys)))"

text \<open>\<open>for image in batch\<close>: the images along the first axis.\<close>

definition images_of :: "'a arr4 \<Rightarrow> 'a arr3 list" where
  "images_of x = (case shape4 x of (n, a, b, c) \<Rightarrow> map (Arr3 (a, b, c)) (vals4 x))"

text \<open>
  \<open>np.array(outputs)\<close> on a list of rank-3 arrays: the empty list gives the rank-1
  array of shape \<open>(0,)\<close>, arrays of one shape are stacked along a new first axis, and
  arrays of different shapes are refused.
\<close>

fun np_array :: "'a arr3 list \<Rightarrow> error + 'a ndarray" where
  "np_array [] = Inr (Rank1 [])"
| "np_array (x # xs) =
     (if list_all (\<lambda>y. shape3 y = shape3 x) xs
      then (case shape3 x of (a, b, c) \<Rightarrow>
              Inr (Rank4 (Arr4 (Suc (length xs), a, b, c) (map vals3 (x # xs)))))
      else Inl ValueError)"

section \<open>The convolution routines\<close>

text \<open>
  The module-level names of a notebook that a function body can read when it has no
  local of that name: \<open>filters\<close>, \<open>biases\<close> and \<open>strides\<close> are assigned at top level
  in every notebook (\<open>None\<close>: not yet bound). The first argument of every routine
  below is the state of these names at the call; the parameters \<open>filters\<close>,
  \<open>biases\<close> and \<open>strides\<close> of the three variants shadow them.
\<close>

record 'a ambient =
  amb_filters :: "'a arr4 option"
  amb_biases :: "'a list option"
  amb_strides :: "(int \<times> int) option"

definition filter_image :: "'a ambient \<Rightarrow> 'a::comm_ring_1 arr3 \<Rightarrow> 'a arr4 \<Rightarrow> int \<times> int \<Rightarrow> error + 'a arr3" where
  "filter_image g img filters strides =
     (case shape3 img of (xm, xn, _) \<Rightarrow>
      case shape4 filters of (km, kn, ni, no) \<Rightarrow>
      case strides of (sm, sn) \<Rightarrow>
      if sm = 0 \<or> sn = 0 then Inl ZeroDivisionError else
      let ym = 1 + (int xm - int km) div sm; yn = 1 + (int xn - int kn) div sn in
      if ym < 0 \<or> yn < 0 then Inl ValueError else
      for_each (enumerate 0 (py_range 0 (int xm - int km + 1) sm)) (\<lambda>(iy, ix).
        for_each (enumerate 0 (py_range 0 (int xn - int kn + 1) sn)) (\<lambda>(jy, jx) y.
          let chunk = slice3 img ix (ix + int km) jx (jx + int kn) in
          for_each [0..<no] (\<lambda>channel y.
            (case filters_chan filters channel of Inl e \<Rightarrow> Inl e | Inr f \<Rightarrow>
              (case mul33 f chunk of Inl e \<Rightarrow> Inl e | Inr p \<Rightarrow>
                 set3 y iy jy channel (np_sum3 p)))) y))
        (np_zeros3 (nat ym, nat yn, no)))"

definition filter_images_v1 :: "'a ambient \<Rightarrow> 'a::comm_ring_1 arr4 \<Rightarrow> 'a arr4 \<Rightarrow> 'a list \<Rightarrow> int \<times> int \<Rightarrow> error + 'a ndarray" where
  "filter_images_v1 g batch filters biases strides =
     (case comprehension (\<lambda>img. filter_image g img filters strides) (images_of batch) of
        Inl e \<Rightarrow> Inl e
      | Inr outputs \<Rightarrow>
          (case np_array outputs of Inl e \<Rightarrow> Inl e
           | Inr outputs \<Rightarrow> add_biases outputs biases))"

definition filter_images_v2 :: "'a ambient \<Rightarrow> 'a::comm_ring_1 arr4 \<Rightarrow> 'a arr4 \<Rightarrow> 'a list \<Rightarrow> int \<times> int \<Rightarrow> error + 'a arr4" where
  "filter_images_v2 g images filters biases strides =
     (case shape4 images of (batch_size, xm, xn, _) \<Rightarrow>
      case shape4 filters of (km, kn, _, num_filters) \<Rightarrow>
      case strides of (sm, sn) \<Rightarrow>
      if sm = 0 \<or> sn = 0 then Inl ZeroDivisionError else
      let ym = 1 + (int xm - int km) div sm; yn = 1 + (int xn - int kn) div sn in
      if ym < 0 \<or> yn < 0 then Inl ValueError else
      (case for_each (enumerate 0 (py_range 0 (int xm - int km + 1) sm)) (\<lambda>(iy, ix).
             for_each (enumerate 0 (py_range 0 (int xn - int kn + 1) sn)) (\<lambda>(jy, jx) y.
               let chunk = slice4 images ix (ix + int km) jx (jx + int kn) in
               for_each [0..<num_filters] (\<lambda>channel y.
                 (case filters_chan filters channel of Inl e \<Rightarrow> Inl e | Inr f \<Rightarrow>
                   (case mul34 f chunk of Inl e \<Rightarrow> Inl e | Inr p \<Rightarrow>
                      set4_col y iy jy channel (np_sum_axes123 p)))) y))
             (np_zeros4 (batch_size, nat ym, nat yn, num_filters)) of
        Inl e \<Rightarrow> Inl e
      | Inr y \<Rightarrow> iadd_biases y biases))"

definition filter_images_v3 :: "'a ambient \<Rightarrow> 'a::comm_ring_1 arr4 \<Rightarrow> 'a arr4 \<Rightarrow> 'a list \<Rightarrow> int \<times> int \<Rightarrow> error + 'a arr4" where
  "filter_images_v3 g images filters biases strides =
     (case shape4 images of (batch_size, xm, xn, _) \<Rightarrow>
      case shape4 filters of (km, kn, num_input_channels, num_filters) \<Rightarrow>
      case strides of (sm, sn) \<Rightarrow>
      if sm = 0 \<or> sn = 0 then Inl ZeroDivisionError else
      let ym = 1 + (int xm - int km) div sm; yn = 1 + (int xn - int kn) div sn in
      if ym < 0 \<or> yn < 0 then Inl ValueError else
      (case for_each (enumerate 0 (py_range 0 (int xm - int km + 1) sm)) (\<lambda>(iy, ix).
             for_each (enumerate 0 (py_range 0 (int xn - int kn + 1) sn)) (\<lambda>(jy, jx) y.
               let chunk = slice4 images ix (ix + int km) jx (jx + int kn) in
               for_each [0..<num_filters] (\<lambda>output_chan.
                 for_each [0..<batch_size] (\<lambda>item y.
                   (case for_each [0..<km] (\<lambda>h.
                          for_each [0..<kn] (\<lambda>w.
                            for_each [0..<num_input_channels] (\<lambda>input_chan tmp.
                              (case get4 chunk item h w input_chan of Inl e \<Rightarrow> Inl e | Inr c \<Rightarrow>
                                (case get4 filters h w input_chan output_chan of Inl e \<Rightarrow> Inl e | Inr f \<Rightarrow>
                                   Inr (tmp + c * f)))))) 0 of
                     Inl e \<Rightarrow> Inl e
                   | Inr tmp \<Rightarrow> set4 y item iy jy output_chan tmp))) y))
             (np_zeros4 (batch_size, nat ym, nat yn, num_filters)) of
        Inl e \<Rightarrow> Inl e
      | Inr y \<Rightarrow> iadd_biases y biases))"

section \<open>The JAX layer\<close>

text \<open>
  The class \<open>Conv2D\<close> of the JAX notebook. Its \<open>__call__\<close> calls the library
  routine \<open>jax.lax.conv_general_dilated\<close>, which is not part of the repository and
  is a parameter of the model, and then adds \<open>biases\<close>: a name that is no
  parameter and no local of \<open>__call__\<close>, so Python looks it up among the module-level
  names and raises \<open>NameError\<close> when it is unbound. JAX arrays are immutable, so
  \<open>+=\<close> rebinds \<open>outputs\<close> to the broadcast sum.
\<close>

record 'a Conv2D =
  self_filters :: "'a arr4"
  self_biases :: "'a list"
  input_channels :: nat
  output_channels :: nat
  filter_shape :: "nat \<times> nat"
  self_strides :: "int \<times> int"
  self_padding :: string
  seed :: int

definition Conv2D_call :: "('a arr4 \<Rightarrow> 'a arr4 \<Rightarrow> int \<times> int \<Rightarrow> string \<Rightarrow> error + 'a arr4) \<Rightarrow> 'a::comm_ring_1 ambient \<Rightarrow> 'a Conv2D \<Rightarrow> 'a arr4 \<Rightarrow> error + 'a arr4" where
  "Conv2D_call conv_general_dilated g self batch =
     (case conv_general_dilated batch (self_filters self) (self_strides self) (self_padding self) of
        Inl e \<Rightarrow> Inl e
      | Inr outputs \<Rightarrow>
          (case amb_biases g of None \<Rightarrow> Inl NameError
           | Some biases \<Rightarrow> add_biases4 outputs biases))"

section \<open>The contract of the specification\<close>

text \<open>
  The preconditions of the contract: both arrays are arrays (their elements fill
  their shape), the input-channel counts agree, there is one bias per output channel,
  the strides are positive and the filter fits into the image.
\<close>

definition valid_input :: "'a arr4 \<Rightarrow> 'a arr4 \<Rightarrow> 'a list \<Rightarrow> int \<times> int \<Rightarrow> bool" where
  "valid_input images filters biases strides =
     (wf4 images \<and> wf4 filters \<and>
      (case shape4 images of (B, H, W, Cin) \<Rightarrow>
       case shape4 filters of (kH, kW, Cin', Cout) \<Rightarrow>
       case strides of (sH, sW) \<Rightarrow>
         Cin = Cin' \<and> length biases = Cout \<and> 1 \<le> sH \<and> 1 \<le> sW \<and> kH \<le> H \<and> kW \<le> W))"

text \<open>
  The output the contract asks for, written after the specification's words:
  \<open>output[n,i,j,c] = bias[c] + \<Sum> image[n, i\<cdot>sH+dh, j\<cdot>sW+dw, ci] \<cdot> filter[dh,dw,ci,c]\<close>
  on the shape \<open>(batch, 1 + (H-kH) div sH, 1 + (W-kW) div sW, Cout)\<close>.
\<close>

definition contract_at :: "'a::comm_ring_1 arr4 \<Rightarrow> 'a arr4 \<Rightarrow> 'a list \<Rightarrow> int \<times> int \<Rightarrow> nat \<Rightarrow> nat \<Rightarrow> nat \<Rightarrow> nat \<Rightarrow> 'a" where
  "contract_at images filters biases strides n i j c =
     (case shape4 filters of (kH, kW, Cin, Cout) \<Rightarrow> case strides of (sH, sW) \<Rightarrow>
        biases ! c + (\<Sum>dh<kH. \<Sum>dw<kW. \<Sum>ci<Cin.
          at4 images n (i * nat sH + dh) (j * nat sW + dw) ci * at4 filters dh dw ci c))"

definition contract_output :: "'a::comm_ring_1 arr4 \<Rightarrow> 'a arr4 \<Rightarrow> 'a list \<Rightarrow> int \<times> int \<Rightarrow> 'a arr4" where
  "contract_output images filters biases strides =
     (case shape4 images of (B, H, W, _) \<Rightarrow>
      case shape4 filters of (kH, kW, Cin, Cout) \<Rightarrow>
      case strides of (sH, sW) \<Rightarrow>
        Arr4 (B, nat (1 + (int H - int kH) div sH), nat (1 + (int W - int kW) div sW), Cout)
          (tab4 B (nat (1 + (int H - int kH) div sH)) (nat (1 + (int W - int kW) div sW)) Cout
             (contract_at images filters biases strides)))"

section \<open>Notions used in the proofs\<close>

text \<open>
  The value the loops store for one output element before the bias is added, with
  the factors in the order of \<open>filters[:,:,:,channel] * chunk\<close>.
\<close>

definition window_sum :: "'a::comm_ring_1 arr4 \<Rightarrow> 'a arr4 \<Rightarrow> int \<times> int \<Rightarrow> nat \<Rightarrow> nat \<Rightarrow> nat \<Rightarrow> nat \<Rightarrow> 'a" where
  "window_sum images filters strides m i j ch =
     (case shape4 filters of (km, kn, ci, no) \<Rightarrow> case strides of (sm, sn) \<Rightarrow>
        sum_list (map (\<lambda>h. sum_list (map (\<lambda>w. sum_list (map (\<lambda>k.
          at4 filters h w k ch * at4 images m (i * nat sm + h) (j * nat sn + w) k)
          [0..<ci])) [0..<kn])) [0..<km]))"

text \<open>
  \<open>frame4 s W V y y'\<close>: the array \<open>y'\<close> has shape \<open>s\<close>, holds \<open>V\<close> at the indices
  in \<open>W\<close> and the elements of \<open>y\<close> elsewhere. It describes what a loop has written.
\<close>

definition frame3 :: "nat \<times> nat \<times> nat \<Rightarrow> (nat \<Rightarrow> nat \<Rightarrow> nat \<Rightarrow> bool) \<Rightarrow> (nat \<Rightarrow> nat \<Rightarrow> nat \<Rightarrow> 'a) \<Rightarrow> 'a arr3 \<Rightarrow> 'a arr3 \<Rightarrow> bool" where
  "frame3 s W V y y' = (wf3 y' \<and> shape3 y' = s \<and> (case s of (a, b, c) \<Rightarrow>
     \<forall>i<a. \<forall>j<b. \<forall>k<c. at3 y' i j k = (if W i j k then V i j k else at3 y i j k)))"

definition frame4 :: "nat \<times> nat \<times> nat \<times> nat \<Rightarrow> (nat \<Rightarrow> nat \<Rightarrow> nat \<Rightarrow> nat \<Rightarrow> bool) \<Rightarrow> (nat \<Rightarrow> nat \<Rightarrow> nat \<Rightarrow> nat \<Rightarrow> 'a) \<Rightarrow> 'a arr4 \<Rightarrow> 'a arr4 \<Rightarrow> bool" where
  "frame4 s W V y y' = (wf4 y' \<and> shape4 y' = s \<and> (case s of (n, a, b, c) \<Rightarrow>
     \<forall>m<n. \<forall>i<a. \<forall>j<b. \<forall>k<c. at4 y' m i j k = (if W m i j k then V m i j k else at4 y m i j k)))"

section \<open>Arrays, loops and windows\<close>

subsection \<open>Tabulated arrays\<close>

lemma nth_tab3: "i < a \<Longrightarrow> j < b \<Longrightarrow> k < c \<Longrightarrow> tab3 a b c f ! i ! j ! k = f i j k"
  by (simp add: tab3_def)

lemma length_tab4: "length (tab4 n a b c f) = n"
  by (simp add: tab4_def)

lemma nth_tab4: "m < n \<Longrightarrow> i < a \<Longrightarrow> j < b \<Longrightarrow> k < c \<Longrightarrow> tab4 n a b c f ! m ! i ! j ! k = f m i j k"
  by (simp add: tab4_def nth_tab3)

lemma wf3_tab3: "wf3 (Arr3 (a, b, c) (tab3 a b c f))"
  by (simp add: wf3_def tab3_def list_all_iff)

lemma wf4_tab4: "wf4 (Arr4 (n, a, b, c) (tab4 n a b c f))"
  by (simp add: wf4_def tab4_def tab3_def list_all_iff)

lemma at3_tab3: "i < a \<Longrightarrow> j < b \<Longrightarrow> k < c \<Longrightarrow> at3 (Arr3 s (tab3 a b c f)) i j k = f i j k"
  by (simp add: at3_def nth_tab3)

lemma at4_tab4: "m < n \<Longrightarrow> i < a \<Longrightarrow> j < b \<Longrightarrow> k < c \<Longrightarrow> at4 (Arr4 s (tab4 n a b c f)) m i j k = f m i j k"
  by (simp add: at4_def nth_tab4)

lemma tab3_cong:
  "(\<And>i j k. i < a \<Longrightarrow> j < b \<Longrightarrow> k < c \<Longrightarrow> f i j k = h i j k) \<Longrightarrow> tab3 a b c f = tab3 a b c h"
  by (simp add: tab3_def)

lemma tab4_cong:
  "(\<And>m i j k. m < n \<Longrightarrow> i < a \<Longrightarrow> j < b \<Longrightarrow> k < c \<Longrightarrow> f m i j k = h m i j k) \<Longrightarrow> tab4 n a b c f = tab4 n a b c h"
  by (simp add: tab4_def tab3_def)

lemma wf3_nth:
  "wf3 x \<Longrightarrow> shape3 x = (a, b, c) \<Longrightarrow>
   length (vals3 x) = a \<and> (\<forall>i<a. length (vals3 x ! i) = b \<and> (\<forall>j<b. length (vals3 x ! i ! j) = c))"
  by (simp add: wf3_def list_all_length)

lemma wf4_nth:
  "wf4 x \<Longrightarrow> shape4 x = (n, a, b, c) \<Longrightarrow>
   length (vals4 x) = n \<and> (\<forall>m<n. length (vals4 x ! m) = a \<and>
     (\<forall>i<a. length (vals4 x ! m ! i) = b \<and> (\<forall>j<b. length (vals4 x ! m ! i ! j) = c)))"
  by (simp add: wf4_def list_all_length)

lemma vals3_eq_tab3:
  assumes "wf3 x" "shape3 x = (a, b, c)"
  shows "vals3 x = tab3 a b c (at3 x)"
  using wf3_nth [OF assms]
  by (auto simp: tab3_def at3_def list_eq_iff_nth_eq)

lemma vals4_eq_tab4:
  assumes "wf4 x" "shape4 x = (n, a, b, c)"
  shows "vals4 x = tab4 n a b c (at4 x)"
  using wf4_nth [OF assms]
  by (auto simp: tab4_def tab3_def at4_def list_eq_iff_nth_eq)

lemma arr3_eqI:
  assumes "wf3 x" "shape3 x = (a, b, c)"
    and "\<And>i j k. i < a \<Longrightarrow> j < b \<Longrightarrow> k < c \<Longrightarrow> at3 x i j k = f i j k"
  shows "x = Arr3 (a, b, c) (tab3 a b c f)"
proof -
  have "vals3 x = tab3 a b c f"
    unfolding vals3_eq_tab3 [OF assms(1,2)] by (rule tab3_cong) (rule assms(3))
  with assms(2) show ?thesis by (cases x) simp
qed

lemma arr4_eqI:
  assumes "wf4 x" "shape4 x = (n, a, b, c)"
    and "\<And>m i j k. m < n \<Longrightarrow> i < a \<Longrightarrow> j < b \<Longrightarrow> k < c \<Longrightarrow> at4 x m i j k = f m i j k"
  shows "x = Arr4 (n, a, b, c) (tab4 n a b c f)"
proof -
  have "vals4 x = tab4 n a b c f"
    unfolding vals4_eq_tab4 [OF assms(1,2)] by (rule tab4_cong) (rule assms(3))
  with assms(2) show ?thesis by (cases x) simp
qed

lemma wf3_zeros: "wf3 (np_zeros3 (a, b, c))"
  by (simp add: wf3_def np_zeros3_def list_all_iff)

lemma wf4_zeros: "wf4 (np_zeros4 (n, a, b, c))"
  by (simp add: wf4_def np_zeros4_def list_all_iff)

lemma shape3_zeros: "shape3 (np_zeros3 s) = s"
  by (simp add: np_zeros3_def split: prod.splits)

lemma shape4_zeros: "shape4 (np_zeros4 s) = s"
  by (simp add: np_zeros4_def split: prod.splits)

subsection \<open>Loops\<close>

lemma for_each_inv:
  assumes "P 0 s"
    and "\<And>n s. n < length ks \<Longrightarrow> P n s \<Longrightarrow> \<exists>s'. body (ks ! n) s = Inr s' \<and> P (Suc n) s'"
  shows "\<exists>s'. for_each ks body s = Inr s' \<and> P (length ks) s'"
  using assms
proof (induction ks arbitrary: P s)
  case Nil
  then show ?case by simp
next
  case (Cons k ks)
  from Cons.prems(2) [of 0 s] Cons.prems(1)
  obtain s1 where s1: "body k s = Inr s1" "P (Suc 0) s1" by auto
  have "\<exists>s'. for_each ks body s1 = Inr s' \<and> P (Suc (length ks)) s'"
  proof (rule Cons.IH [where P = "\<lambda>n. P (Suc n)"])
    show "P (Suc 0) s1" by (rule s1)
  next
    fix n s assume "n < length ks" "P (Suc n) s"
    with Cons.prems(2) [of "Suc n" s]
    show "\<exists>s'. body (ks ! n) s = Inr s' \<and> P (Suc (Suc n)) s'" by simp
  qed
  with s1 show ?case by simp
qed

lemma for_each_sum:
  fixes t :: "'a::comm_ring_1"
  assumes "\<And>k t. k \<in> set ks \<Longrightarrow> body k t = Inr (t + f k)"
  shows "for_each ks body t = Inr (t + sum_list (map f ks))"
  using assms by (induction ks arbitrary: t) (simp_all add: add.assoc)

lemma for_each_preserves:
  assumes "for_each ks body s = Inr s'" "P s"
    and "\<And>k s s'. k \<in> set ks \<Longrightarrow> P s \<Longrightarrow> body k s = Inr s' \<Longrightarrow> P s'"
  shows "P s'"
  using assms
proof (induction ks arbitrary: s)
  case Nil
  then show ?case by simp
next
  case (Cons k ks)
  from Cons.prems(1) obtain s1 where s1: "body k s = Inr s1" "for_each ks body s1 = Inr s'"
    by (auto split: sum.splits)
  have p1: "P s1" using Cons.prems(3) [of k s s1] Cons.prems(2) s1 by simp
  show ?case
  proof (rule Cons.IH [OF s1(2) p1])
    fix j t t' assume "j \<in> set ks" "P t" "body j t = Inr t'"
    then show "P t'" using Cons.prems(3) [of j t t'] by simp
  qed
qed

lemma comprehension_Inr:
  "(\<And>x. x \<in> set xs \<Longrightarrow> f x = Inr (h x)) \<Longrightarrow> comprehension f xs = Inr (map h xs)"
  by (induction xs) simp_all

subsection \<open>Geometry of the sliding window\<close>

lemma py_range_valid:
  assumes "1 \<le> s" "k \<le> x"
  shows "py_range 0 (int x - int k + 1) s = map (\<lambda>n. int (n * nat s)) [0..<nat (1 + (int x - int k) div s)]"
proof -
  have "(s + (int x - int k)) div s = (int x - int k) div s + 1"
    using assms by (subst div_add_self1) simp_all
  then have "(int x - int k + 1 - 0 + s - 1) div s = 1 + (int x - int k) div s"
    by (simp add: algebra_simps)
  moreover have "\<And>n. int n * s = int (n * nat s)" using assms by simp
  ultimately show ?thesis using assms by (simp add: py_range_def)
qed

lemma enumerate_map_upt: "enumerate 0 (map f [0..<n]) = map (\<lambda>i. (i, f i)) [0..<n]"
  by (simp add: list_eq_iff_nth_eq nth_enumerate_eq)

lemma window_fits:
  assumes "1 \<le> s" "k \<le> x" "i < nat (1 + (int x - int k) div s)"
  shows "i * nat s + k \<le> x"
proof -
  have "int i \<le> (int x - int k) div s" using assms by simp
  then have "int i * s \<le> ((int x - int k) div s) * s"
    using assms(1) by (simp add: mult_right_mono)
  also have "\<dots> \<le> int x - int k"
  proof -
    have "int x - int k = ((int x - int k) div s) * s + (int x - int k) mod s" by simp
    moreover have "0 \<le> (int x - int k) mod s" using assms(1) by simp
    ultimately show ?thesis by linarith
  qed
  finally have "int i * int (nat s) + int k \<le> int x" using assms(1) by simp
  then show ?thesis by (metis of_nat_add of_nat_le_iff of_nat_mult)
qed

subsection \<open>Slices\<close>

lemma clip_index_nat: "p \<le> n \<Longrightarrow> clip_index n (int p) = p"
  by (simp add: clip_index_def)

lemma py_slice_window:
  assumes "p + k \<le> length xs"
  shows "py_slice xs (int p) (int p + int k) = take k (drop p xs)"
proof -
  have "clip_index (length xs) (int p) = p" using assms by (simp add: clip_index_nat)
  moreover have "clip_index (length xs) (int p + int k) = p + k"
    using assms clip_index_nat [of "p + k" "length xs"] by simp
  ultimately show ?thesis by (simp add: py_slice_def)
qed

lemma slice_len_window: "p + k \<le> n \<Longrightarrow> slice_len n (int p) (int p + int k) = k"
  using clip_index_nat [of "p + k" n] clip_index_nat [of p n] by (simp add: slice_len_def)

lemma slice3_window:
  assumes "wf3 x" "shape3 x = (a, b, c)" "p + km \<le> a" "q + kn \<le> b"
  shows "slice3 x (int p) (int p + int km) (int q) (int q + int kn) =
         Arr3 (km, kn, c) (tab3 km kn c (\<lambda>h w k. at3 x (p + h) (q + w) k))"
proof -
  note w = wf3_nth [OF assms(1,2)]
  have 1: "py_slice (vals3 x) (int p) (int p + int km) = take km (drop p (vals3 x))"
    using w assms(3) by (simp add: py_slice_window)
  have 2: "\<And>h. h < km \<Longrightarrow> py_slice (vals3 x ! (p + h)) (int q) (int q + int kn) = take kn (drop q (vals3 x ! (p + h)))"
    using w assms(3,4) by (simp add: py_slice_window)
  have "map (\<lambda>r. py_slice r (int q) (int q + int kn)) (take km (drop p (vals3 x))) = tab3 km kn c (\<lambda>h w k. at3 x (p + h) (q + w) k)"
    using w assms(3,4) 2 by (auto simp: list_eq_iff_nth_eq tab3_def at3_def)
  then show ?thesis using assms 1 by (simp add: slice3_def slice_len_window)
qed

lemma slice4_window:
  assumes "wf4 x" "shape4 x = (n, a, b, c)" "p + km \<le> a" "q + kn \<le> b"
  shows "slice4 x (int p) (int p + int km) (int q) (int q + int kn) =
         Arr4 (n, km, kn, c) (tab4 n km kn c (\<lambda>m h w k. at4 x m (p + h) (q + w) k))"
proof -
  note w = wf4_nth [OF assms(1,2)]
  have "map (\<lambda>img. map (\<lambda>r. py_slice r (int q) (int q + int kn)) (py_slice img (int p) (int p + int km))) (vals4 x)
        = tab4 n km kn c (\<lambda>m h w k. at4 x m (p + h) (q + w) k)"
  proof (rule nth_equalityI)
    show "length (map (\<lambda>img. map (\<lambda>r. py_slice r (int q) (int q + int kn)) (py_slice img (int p) (int p + int km))) (vals4 x))
          = length (tab4 n km kn c (\<lambda>m h w k. at4 x m (p + h) (q + w) k))"
      using w by (simp add: length_tab4)
  next
    fix m assume "m < length (map (\<lambda>img. map (\<lambda>r. py_slice r (int q) (int q + int kn)) (py_slice img (int p) (int p + int km))) (vals4 x))"
    then have m: "m < n" using w by simp
    have w3: "wf3 (Arr3 (a, b, c) (vals4 x ! m))"
      using w m by (simp add: wf3_def list_all_length)
    have "slice3 (Arr3 (a, b, c) (vals4 x ! m)) (int p) (int p + int km) (int q) (int q + int kn)
          = Arr3 (km, kn, c) (tab3 km kn c (\<lambda>h w k. at3 (Arr3 (a, b, c) (vals4 x ! m)) (p + h) (q + w) k))"
      by (rule slice3_window [OF w3 _ assms(3,4)]) simp
    then have "map (\<lambda>r. py_slice r (int q) (int q + int kn)) (py_slice (vals4 x ! m) (int p) (int p + int km))
          = tab3 km kn c (\<lambda>h w k. at4 x m (p + h) (q + w) k)"
      by (simp add: slice3_def at3_def at4_def)
    then show "map (\<lambda>img. map (\<lambda>r. py_slice r (int q) (int q + int kn)) (py_slice img (int p) (int p + int km))) (vals4 x) ! m
          = tab4 n km kn c (\<lambda>m h w k. at4 x m (p + h) (q + w) k) ! m"
      using m w by (simp add: tab4_def)
  qed
  then show ?thesis using assms by (simp add: slice4_def slice_len_window)
qed

lemma filters_chan_tab:
  assumes "wf4 f" "shape4 f = (km, kn, ci, no)" "ch < no"
  shows "filters_chan f ch = Inr (Arr3 (km, kn, ci) (tab3 km kn ci (\<lambda>h w k. at4 f h w k ch)))"
proof -
  note w = wf4_nth [OF assms(1,2)]
  have "map (map (map (\<lambda>v. v ! ch))) (vals4 f) = tab3 km kn ci (\<lambda>h w k. at4 f h w k ch)"
    using w by (auto simp: list_eq_iff_nth_eq tab3_def at4_def)
  then show ?thesis using assms by (simp add: filters_chan_def)
qed

subsection \<open>Products and sums\<close>

lemma bdim_same: "bdim d d = Some d"
  by (simp add: bdim_def)

lemma bidx_less: "i < d \<Longrightarrow> bidx d i = i"
  by (auto simp: bidx_def)

lemma sum_img_tab3:
  "sum_img (tab3 a b c f) =
     sum_list (map (\<lambda>h. sum_list (map (\<lambda>w. sum_list (map (\<lambda>k. f h w k) [0..<c])) [0..<b])) [0..<a])"
  by (simp add: sum_img_def tab3_def o_def)

lemma mul34_tab:
  "mul34 (Arr3 (a, b, c) (tab3 a b c F)) (Arr4 (n, a, b, c) (tab4 n a b c X)) =
     Inr (Arr4 (n, a, b, c) (tab4 n a b c (\<lambda>m h w k. F h w k * X m h w k)))"
proof -
  have "tab4 n a b c (\<lambda>m i j k. at3 (Arr3 (a, b, c) (tab3 a b c F)) (bidx a i) (bidx b j) (bidx c k) *
                          at4 (Arr4 (n, a, b, c) (tab4 n a b c X)) m (bidx a i) (bidx b j) (bidx c k))
        = tab4 n a b c (\<lambda>m h w k. F h w k * X m h w k)"
    by (rule tab4_cong) (simp add: bidx_less at3_tab3 at4_tab4)
  then show ?thesis by (simp add: mul34_def bdim_same)
qed

subsection \<open>Writes\<close>

lemma frame4_refl: "wf4 y \<Longrightarrow> shape4 y = s \<Longrightarrow> frame4 s (\<lambda>m i j k. False) V y y"
  by (simp add: frame4_def split: prod.splits)

lemma frame3_refl: "wf3 y \<Longrightarrow> shape3 y = s \<Longrightarrow> frame3 s (\<lambda>i j k. False) V y y"
  by (simp add: frame3_def split: prod.splits)

lemma frame4_trans:
  assumes "frame4 s W1 V y y1" "frame4 s W2 V y1 y2"
  shows "frame4 s (\<lambda>m i j k. W1 m i j k \<or> W2 m i j k) V y y2"
  using assms by (auto simp: frame4_def split: prod.splits)

lemma frame3_trans:
  assumes "frame3 s W1 V y y1" "frame3 s W2 V y1 y2"
  shows "frame3 s (\<lambda>i j k. W1 i j k \<or> W2 i j k) V y y2"
  using assms by (auto simp: frame3_def split: prod.splits)

lemma frame3_weaken:
  assumes "frame3 s W V y y'"
    and "\<And>i j k. W i j k = W' i j k"
  shows "frame3 s W' V y y'"
  using assms by (simp add: frame3_def)

lemma frame4_weaken:
  assumes "frame4 s W V y y'"
    and "\<And>m i j k. W m i j k = W' m i j k"
  shows "frame4 s W' V y y'"
  using assms by (simp add: frame4_def)

lemma list_all_update:
  "list_all P xs \<Longrightarrow> (i < length xs \<Longrightarrow> P x) \<Longrightarrow> list_all P (xs[i := x])"
  by (cases "i < length xs") (auto simp: list_all_length nth_list_update)

lemma img_update_ok:
  assumes "length img = a" "list_all (\<lambda>p. length p = b \<and> list_all (\<lambda>r. length r = c) p) img"
  shows "length (img[i := (img ! i)[j := (img ! i ! j)[k := v]]]) = a \<and>
         list_all (\<lambda>p. length p = b \<and> list_all (\<lambda>r. length r = c) p)
           (img[i := (img ! i)[j := (img ! i ! j)[k := v]]])"
proof
  show "length (img[i := (img ! i)[j := (img ! i ! j)[k := v]]]) = a"
    using assms(1) by simp
  show "list_all (\<lambda>p. length p = b \<and> list_all (\<lambda>r. length r = c) p)
           (img[i := (img ! i)[j := (img ! i ! j)[k := v]]])"
  proof (rule list_all_update [OF assms(2)])
    assume "i < length img"
    with assms(2) have row: "length (img ! i) = b" "list_all (\<lambda>r. length r = c) (img ! i)"
      by (simp_all add: list_all_length)
    have "list_all (\<lambda>r. length r = c) ((img ! i)[j := (img ! i ! j)[k := v]])"
    proof (rule list_all_update [OF row(2)])
      assume "j < length (img ! i)"
      with row(2) show "length ((img ! i ! j)[k := v]) = c"
        by (simp add: list_all_length)
    qed
    with row(1) show "length ((img ! i)[j := (img ! i ! j)[k := v]]) = b \<and>
        list_all (\<lambda>r. length r = c) ((img ! i)[j := (img ! i ! j)[k := v]])"
      by simp
  qed
qed

lemma img_update_nth:
  assumes "i < length img" "j < length (img ! i)" "k < length (img ! i ! j)"
  shows "img[i := (img ! i)[j := (img ! i ! j)[k := v]]] ! i' ! j' ! k' =
         (if i' = i \<and> j' = j \<and> k' = k then v else img ! i' ! j' ! k')"
  using assms by (auto simp: nth_list_update)

lemma set3_frame:
  assumes "wf3 y" "shape3 y = (a, b, c)" "i < a" "j < b" "k < c" "v = V i j k"
  shows "\<exists>y'. set3 y i j k v = Inr y' \<and> frame3 (a, b, c) (\<lambda>i' j' k'. i' = i \<and> j' = j \<and> k' = k) V y y'"
proof -
  note w = wf3_nth [OF assms(1,2)]
  let ?y' = "Arr3 (a, b, c) ((vals3 y)[i := (vals3 y ! i)[j := (vals3 y ! i ! j)[k := v]]])"
  have "set3 y i j k v = Inr ?y'" using assms by (simp add: set3_def)
  moreover have "wf3 ?y'"
  proof -
    have "length (vals3 y) = a \<and> list_all (\<lambda>p. length p = b \<and> list_all (\<lambda>r. length r = c) p) (vals3 y)"
      using assms(1,2) by (simp add: wf3_def)
    then have "length ((vals3 y)[i := (vals3 y ! i)[j := (vals3 y ! i ! j)[k := v]]]) = a \<and>
         list_all (\<lambda>p. length p = b \<and> list_all (\<lambda>r. length r = c) p)
           ((vals3 y)[i := (vals3 y ! i)[j := (vals3 y ! i ! j)[k := v]]])"
      by (intro img_update_ok) simp_all
    then show ?thesis by (simp add: wf3_def)
  qed
  moreover have "\<And>i' j' k'. at3 ?y' i' j' k' = (if i' = i \<and> j' = j \<and> k' = k then V i' j' k' else at3 y i' j' k')"
    unfolding at3_def arr3.sel
    by (subst img_update_nth) (use w assms in auto)
  ultimately show ?thesis by (simp add: frame3_def)
qed

lemma set4_frame:
  assumes "wf4 y" "shape4 y = (n, a, b, c)" "m < n" "i < a" "j < b" "k < c" "v = V m i j k"
  shows "\<exists>y'. set4 y m i j k v = Inr y' \<and>
           frame4 (n, a, b, c) (\<lambda>m' i' j' k'. m' = m \<and> i' = i \<and> j' = j \<and> k' = k) V y y'"
proof -
  note w = wf4_nth [OF assms(1,2)]
  let ?img = "(vals4 y ! m)[i := (vals4 y ! m ! i)[j := (vals4 y ! m ! i ! j)[k := v]]]"
  let ?y' = "Arr4 (n, a, b, c) ((vals4 y)[m := ?img])"
  have all: "list_all (\<lambda>img. length img = a \<and>
       list_all (\<lambda>p. length p = b \<and> list_all (\<lambda>r. length r = c) p) img) (vals4 y)"
    and len: "length (vals4 y) = n"
    using assms(1,2) by (simp_all add: wf4_def)
  have "set4 y m i j k v = Inr ?y'" using assms by (simp add: set4_def)
  moreover have "wf4 ?y'"
  proof -
    have "length (vals4 y ! m) = a \<and>
       list_all (\<lambda>p. length p = b \<and> list_all (\<lambda>r. length r = c) p) (vals4 y ! m)"
      using all len assms(3) by (simp add: list_all_length)
    then have "length ?img = a \<and> list_all (\<lambda>p. length p = b \<and> list_all (\<lambda>r. length r = c) p) ?img"
      by (intro img_update_ok) simp_all
    then have "list_all (\<lambda>img. length img = a \<and>
       list_all (\<lambda>p. length p = b \<and> list_all (\<lambda>r. length r = c) p) img) ((vals4 y)[m := ?img])"
      by (intro list_all_update [OF all])
    then show ?thesis using len by (simp add: wf4_def)
  qed
  moreover have "\<And>m' i' j' k'. m' < n \<Longrightarrow> at4 ?y' m' i' j' k' =
      (if m' = m \<and> i' = i \<and> j' = j \<and> k' = k then V m' i' j' k' else at4 y m' i' j' k')"
  proof -
    fix m' i' j' k' assume "m' < n"
    have 1: "?img ! i' ! j' ! k' = (if i' = i \<and> j' = j \<and> k' = k then v else vals4 y ! m ! i' ! j' ! k')"
      by (rule img_update_nth) (use w assms in auto)
    have 2: "at4 ?y' m' i' j' k' = (if m' = m then ?img ! i' ! j' ! k' else at4 y m' i' j' k')"
      using \<open>m' < n\<close> len by (simp add: at4_def nth_list_update)
    show "at4 ?y' m' i' j' k' =
      (if m' = m \<and> i' = i \<and> j' = j \<and> k' = k then V m' i' j' k' else at4 y m' i' j' k')"
      unfolding 2 1 using assms(7) by (auto simp: at4_def)
  qed
  ultimately show ?thesis by (simp add: frame4_def)
qed

lemma set4_col_frame:
  assumes "wf4 y" "shape4 y = (n, a, b, c)" "i < a" "j < b" "k < c"
    and "vec = map (\<lambda>m. V m i j k) [0..<n]"
  shows "\<exists>y'. set4_col y i j k vec = Inr y' \<and>
           frame4 (n, a, b, c) (\<lambda>m' i' j' k'. i' = i \<and> j' = j \<and> k' = k) V y y'"
proof -
  note w = wf4_nth [OF assms(1,2)]
  let ?img = "\<lambda>m. (vals4 y ! m)[i := (vals4 y ! m ! i)[j := (vals4 y ! m ! i ! j)[k := vec ! bidx (length vec) m]]]"
  let ?y' = "Arr4 (n, a, b, c) (map ?img [0..<n])"
  have all: "list_all (\<lambda>img. length img = a \<and>
       list_all (\<lambda>p. length p = b \<and> list_all (\<lambda>r. length r = c) p) img) (vals4 y)"
    and len: "length (vals4 y) = n"
    using assms(1,2) by (simp_all add: wf4_def)
  have "set4_col y i j k vec = Inr ?y'" using assms by (simp add: set4_col_def)
  moreover have "wf4 ?y'"
  proof -
    have "\<And>m. m < n \<Longrightarrow> length (?img m) = a \<and> list_all (\<lambda>p. length p = b \<and> list_all (\<lambda>r. length r = c) p) (?img m)"
    proof -
      fix m assume "m < n"
      then have "length (vals4 y ! m) = a \<and>
         list_all (\<lambda>p. length p = b \<and> list_all (\<lambda>r. length r = c) p) (vals4 y ! m)"
        using all len by (simp add: list_all_length)
      then show "length (?img m) = a \<and> list_all (\<lambda>p. length p = b \<and> list_all (\<lambda>r. length r = c) p) (?img m)"
        by (intro img_update_ok) simp_all
    qed
    then show ?thesis by (simp add: wf4_def list_all_length)
  qed
  moreover have "\<And>m' i' j' k'. m' < n \<Longrightarrow> at4 ?y' m' i' j' k' =
      (if i' = i \<and> j' = j \<and> k' = k then V m' i' j' k' else at4 y m' i' j' k')"
  proof -
    fix m' i' j' k' assume m': "m' < n"
    have "?img m' ! i' ! j' ! k' = (if i' = i \<and> j' = j \<and> k' = k then vec ! bidx (length vec) m' else vals4 y ! m' ! i' ! j' ! k')"
      by (rule img_update_nth) (use w assms m' in auto)
    moreover have "vec ! bidx (length vec) m' = V m' i j k"
      using m' assms(6) by (simp add: bidx_less)
    ultimately show "at4 ?y' m' i' j' k' =
      (if i' = i \<and> j' = j \<and> k' = k then V m' i' j' k' else at4 y m' i' j' k')"
      using m' by (simp add: at4_def)
  qed
  ultimately show ?thesis by (simp add: frame4_def)
qed

subsection \<open>Loops that fill an array\<close>

lemma for_each_frame4:
  assumes "wf4 y" "shape4 y = s"
    and step: "\<And>n y1. n < length ks \<Longrightarrow> wf4 y1 \<Longrightarrow> shape4 y1 = s \<Longrightarrow>
                 \<exists>y2. body (ks ! n) y1 = Inr y2 \<and> frame4 s (W n) V y1 y2"
  shows "\<exists>y'. for_each ks body y = Inr y' \<and> frame4 s (\<lambda>m i j k. \<exists>n<length ks. W n m i j k) V y y'"
proof (rule for_each_inv [where P = "\<lambda>l y'. frame4 s (\<lambda>m i j k. \<exists>n<l. W n m i j k) V y y'"])
  show "frame4 s (\<lambda>m i j k. \<exists>n<0. W n m i j k) V y y"
    using frame4_refl [OF assms(1,2)] by simp
next
  fix l y1 assume l: "l < length ks" and f1: "frame4 s (\<lambda>m i j k. \<exists>n<l. W n m i j k) V y y1"
  then have "wf4 y1" "shape4 y1 = s" by (simp_all add: frame4_def)
  from step [OF l this] obtain y2 where y2: "body (ks ! l) y1 = Inr y2" "frame4 s (W l) V y1 y2"
    by blast
  have "frame4 s (\<lambda>m i j k. \<exists>n<Suc l. W n m i j k) V y y2"
    by (rule frame4_weaken [OF frame4_trans [OF f1 y2(2)]]) (auto simp: less_Suc_eq)
  with y2(1) show "\<exists>s'. body (ks ! l) y1 = Inr s' \<and> frame4 s (\<lambda>m i j k. \<exists>n<Suc l. W n m i j k) V y s'"
    by blast
qed

lemma for_each_frame3:
  assumes "wf3 y" "shape3 y = s"
    and step: "\<And>n y1. n < length ks \<Longrightarrow> wf3 y1 \<Longrightarrow> shape3 y1 = s \<Longrightarrow>
                 \<exists>y2. body (ks ! n) y1 = Inr y2 \<and> frame3 s (W n) V y1 y2"
  shows "\<exists>y'. for_each ks body y = Inr y' \<and> frame3 s (\<lambda>i j k. \<exists>n<length ks. W n i j k) V y y'"
proof (rule for_each_inv [where P = "\<lambda>l y'. frame3 s (\<lambda>i j k. \<exists>n<l. W n i j k) V y y'"])
  show "frame3 s (\<lambda>i j k. \<exists>n<0. W n i j k) V y y"
    using frame3_refl [OF assms(1,2)] by simp
next
  fix l y1 assume l: "l < length ks" and f1: "frame3 s (\<lambda>i j k. \<exists>n<l. W n i j k) V y y1"
  then have "wf3 y1" "shape3 y1 = s" by (simp_all add: frame3_def)
  from step [OF l this] obtain y2 where y2: "body (ks ! l) y1 = Inr y2" "frame3 s (W l) V y1 y2"
    by blast
  have "frame3 s (\<lambda>i j k. \<exists>n<Suc l. W n i j k) V y y2"
    by (rule frame3_weaken [OF frame3_trans [OF f1 y2(2)]]) (auto simp: less_Suc_eq)
  with y2(1) show "\<exists>s'. body (ks ! l) y1 = Inr s' \<and> frame3 s (\<lambda>i j k. \<exists>n<Suc l. W n i j k) V y s'"
    by blast
qed

lemma frame4_weaken':
  assumes "frame4 (n, a, b, c) W V y y'"
    and "\<And>m i j k. m < n \<Longrightarrow> i < a \<Longrightarrow> j < b \<Longrightarrow> k < c \<Longrightarrow> W m i j k = W' m i j k"
  shows "frame4 (n, a, b, c) W' V y y'"
  using assms by (simp add: frame4_def)

subsection \<open>The batched variant: one window\<close>

text \<open>
  For one window position the channel loop of \<open>filter_images_v2\<close> stores, for every
  batch item and output channel, the window sum of that position and changes nothing
  else.
\<close>

lemma np_sum_axes123_tab:
  "np_sum_axes123 (Arr4 s (tab4 n a b c F)) = map (\<lambda>m. sum_img (tab3 a b c (F m))) [0..<n]"
  by (simp add: np_sum_axes123_def tab4_def)

lemma v2_channel_step:
  assumes im: "wf4 images" "shape4 images = (B, xm, xn, ci)"
    and fi: "wf4 filters" "shape4 filters = (km, kn, ci, no)"
    and fit: "i * nat sm + km \<le> xm" "j * nat sn + kn \<le> xn"
    and y: "wf4 y" "shape4 y = (B, ym, yn, no)" "i < ym" "j < yn" "ch < no"
  shows "\<exists>y'. (case filters_chan filters ch of Inl e \<Rightarrow> Inl e | Inr f \<Rightarrow>
                 (case mul34 f (slice4 images (int (i * nat sm)) (int (i * nat sm) + int km)
                                              (int (j * nat sn)) (int (j * nat sn) + int kn)) of
                    Inl e \<Rightarrow> Inl e
                  | Inr p \<Rightarrow> set4_col y i j ch (np_sum_axes123 p))) = Inr y' \<and>
           frame4 (B, ym, yn, no) (\<lambda>m' i' j' k'. i' = i \<and> j' = j \<and> k' = ch)
             (window_sum images filters (sm, sn)) y y'"
proof -
  have vec: "map (\<lambda>m. sum_img (tab3 km kn ci (\<lambda>h w k. at4 filters h w k ch * at4 images m (i * nat sm + h) (j * nat sn + w) k))) [0..<B]
           = map (\<lambda>m. window_sum images filters (sm, sn) m i j ch) [0..<B]"
    using fi(2) by (simp add: window_sum_def sum_img_tab3)
  show ?thesis
    unfolding filters_chan_tab [OF fi y(5)] slice4_window [OF im fit] sum.case mul34_tab
      np_sum_axes123_tab vec
    by (rule set4_col_frame [OF y(1,2,3,4,5) refl])
qed

lemma v2_channel_loop:
  assumes im: "wf4 images" "shape4 images = (B, xm, xn, ci)"
    and fi: "wf4 filters" "shape4 filters = (km, kn, ci, no)"
    and fit: "i * nat sm + km \<le> xm" "j * nat sn + kn \<le> xn"
    and y: "wf4 y" "shape4 y = (B, ym, yn, no)" "i < ym" "j < yn"
  shows "\<exists>y'. for_each [0..<no] (\<lambda>channel y.
                 case filters_chan filters channel of Inl e \<Rightarrow> Inl e | Inr f \<Rightarrow>
                 (case mul34 f (slice4 images (int (i * nat sm)) (int (i * nat sm) + int km)
                                              (int (j * nat sn)) (int (j * nat sn) + int kn)) of
                    Inl e \<Rightarrow> Inl e
                  | Inr p \<Rightarrow> set4_col y i j channel (np_sum_axes123 p))) y = Inr y' \<and>
           frame4 (B, ym, yn, no) (\<lambda>m' i' j' k'. i' = i \<and> j' = j)
             (window_sum images filters (sm, sn)) y y'"
proof -
  let ?body = "\<lambda>channel y.
                 case filters_chan filters channel of Inl e \<Rightarrow> Inl e | Inr f \<Rightarrow>
                 (case mul34 f (slice4 images (int (i * nat sm)) (int (i * nat sm) + int km)
                                              (int (j * nat sn)) (int (j * nat sn) + int kn)) of
                    Inl e \<Rightarrow> Inl e
                  | Inr p \<Rightarrow> set4_col y i j channel (np_sum_axes123 p))"
  have "\<exists>y'. for_each [0..<no] ?body y = Inr y' \<and>
          frame4 (B, ym, yn, no) (\<lambda>m' i' j' k'. \<exists>n<length [0..<no]. i' = i \<and> j' = j \<and> k' = n)
            (window_sum images filters (sm, sn)) y y'"
  proof (rule for_each_frame4 [OF y(1,2)])
    fix n and y1 :: "'a arr4"
    assume n: "n < length [0..<no]" and y1: "wf4 y1" "shape4 y1 = (B, ym, yn, no)"
    then have "n < no" and e: "[0..<no] ! n = n" by simp_all
    show "\<exists>y2. ?body ([0..<no] ! n) y1 = Inr y2 \<and>
             frame4 (B, ym, yn, no) (\<lambda>m' i' j' k'. i' = i \<and> j' = j \<and> k' = n)
               (window_sum images filters (sm, sn)) y1 y2"
      unfolding e by (rule v2_channel_step [OF im fi fit y1 y(3,4) \<open>n < no\<close>])
  qed
  then obtain y' where y': "for_each [0..<no] ?body y = Inr y'"
    "frame4 (B, ym, yn, no) (\<lambda>m' i' j' k'. \<exists>n<length [0..<no]. i' = i \<and> j' = j \<and> k' = n)
            (window_sum images filters (sm, sn)) y y'" by blast
  have "frame4 (B, ym, yn, no) (\<lambda>m' i' j' k'. i' = i \<and> j' = j) (window_sum images filters (sm, sn)) y y'"
    by (rule frame4_weaken' [OF y'(2)]) auto
  with y'(1) show ?thesis by blast
qed

subsection \<open>The two outer loops\<close>

text \<open>
  With positive strides and a filter that fits, \<open>enumerate(range(0, xm-km+1, sm))\<close>
  yields the pairs \<open>(i, i\<cdot>sm)\<close> for \<open>i < 1 + (xm-km) div sm\<close>, and each window lies
  inside the image. If the body fills the output elements of its window, the two outer
  loops fill the whole array; this is shared by the three variants.
\<close>

lemma frame3_weaken':
  assumes "frame3 (a, b, c) W V y y'"
    and "\<And>i j k. i < a \<Longrightarrow> j < b \<Longrightarrow> k < c \<Longrightarrow> W i j k = W' i j k"
  shows "frame3 (a, b, c) W' V y y'"
  using assms by (simp add: frame3_def)

lemma enumerate_range:
  assumes "1 \<le> s" "k \<le> x"
  shows "enumerate 0 (py_range 0 (int x - int k + 1) s) =
         map (\<lambda>i. (i, int (i * nat s))) [0..<nat (1 + (int x - int k) div s)]"
  unfolding py_range_valid [OF assms] by (rule enumerate_map_upt)

lemma window_loops4:
  fixes y :: "'a arr4"
  assumes geo: "1 \<le> sm" "1 \<le> sn" "km \<le> xm" "kn \<le> xn"
    and ym: "ym = nat (1 + (int xm - int km) div sm)" and yn: "yn = nat (1 + (int xn - int kn) div sn)"
    and y: "wf4 y" "shape4 y = (B, ym, yn, no)"
    and inner: "\<And>i j (y1 :: 'a arr4). i < ym \<Longrightarrow> j < yn \<Longrightarrow> wf4 y1 \<Longrightarrow> shape4 y1 = (B, ym, yn, no) \<Longrightarrow>
       \<exists>y2. inner i (int (i * nat sm)) j (int (j * nat sn)) y1 = Inr y2 \<and>
            frame4 (B, ym, yn, no) (\<lambda>m' i' j' k'. i' = i \<and> j' = j) V y1 y2"
  shows "\<exists>y'. for_each (enumerate 0 (py_range 0 (int xm - int km + 1) sm)) (\<lambda>(iy, ix).
                 for_each (enumerate 0 (py_range 0 (int xn - int kn + 1) sn)) (\<lambda>(jy, jx) y.
                   inner iy ix jy jx y)) y = Inr y' \<and>
              frame4 (B, ym, yn, no) (\<lambda>m' i' j' k'. True) V y y'"
proof -
  let ?rows = "map (\<lambda>i. (i, int (i * nat sm))) [0..<ym]"
  let ?cols = "map (\<lambda>j. (j, int (j * nat sn))) [0..<yn]"
  let ?body = "\<lambda>(iy, ix). for_each ?cols (\<lambda>(jy, jx) y. inner iy ix jy jx y)"
  have "\<exists>y'. for_each ?rows ?body y = Inr y' \<and>
          frame4 (B, ym, yn, no) (\<lambda>m' i' j' k'. \<exists>n<length ?rows. i' = n) V y y'"
  proof (rule for_each_frame4 [OF y])
    fix n and y1 :: "'a arr4"
    assume n: "n < length ?rows" and y1: "wf4 y1" "shape4 y1 = (B, ym, yn, no)"
    then have n': "n < ym" and e: "?rows ! n = (n, int (n * nat sm))" by simp_all
    have "\<exists>y2. for_each ?cols (\<lambda>(jy, jx) y. inner n (int (n * nat sm)) jy jx y) y1 = Inr y2 \<and>
            frame4 (B, ym, yn, no) (\<lambda>m' i' j' k'. \<exists>l<length ?cols. i' = n \<and> j' = l) V y1 y2"
    proof (rule for_each_frame4 [OF y1])
      fix l and y3 :: "'a arr4"
      assume l: "l < length ?cols" and y3: "wf4 y3" "shape4 y3 = (B, ym, yn, no)"
      then have l': "l < yn" and e': "?cols ! l = (l, int (l * nat sn))" by simp_all
      show "\<exists>y2. (case ?cols ! l of (jy, jx) \<Rightarrow> \<lambda>y. inner n (int (n * nat sm)) jy jx y) y3 = Inr y2 \<and>
              frame4 (B, ym, yn, no) (\<lambda>m' i' j' k'. i' = n \<and> j' = l) V y3 y2"
        unfolding e' prod.case by (rule inner [OF n' l' y3])
    qed
    then obtain y2 where y2: "for_each ?cols (\<lambda>(jy, jx) y. inner n (int (n * nat sm)) jy jx y) y1 = Inr y2"
      "frame4 (B, ym, yn, no) (\<lambda>m' i' j' k'. \<exists>l<length ?cols. i' = n \<and> j' = l) V y1 y2" by blast
    have "frame4 (B, ym, yn, no) (\<lambda>m' i' j' k'. i' = n) V y1 y2"
      by (rule frame4_weaken' [OF y2(2)]) auto
    with y2(1) show "\<exists>y2. ?body (?rows ! n) y1 = Inr y2 \<and> frame4 (B, ym, yn, no) (\<lambda>m' i' j' k'. i' = n) V y1 y2"
      unfolding e prod.case by blast
  qed
  then obtain y' where y': "for_each ?rows ?body y = Inr y'"
      "frame4 (B, ym, yn, no) (\<lambda>m' i' j' k'. \<exists>n<length ?rows. i' = n) V y y'" by blast
  have "frame4 (B, ym, yn, no) (\<lambda>m' i' j' k'. True) V y y'"
    by (rule frame4_weaken' [OF y'(2)]) auto
  with y'(1) show ?thesis
    unfolding enumerate_range [OF geo(1,3)] enumerate_range [OF geo(2,4)] ym yn by blast
qed

lemma window_loops3:
  fixes y :: "'a arr3"
  assumes geo: "1 \<le> sm" "1 \<le> sn" "km \<le> xm" "kn \<le> xn"
    and ym: "ym = nat (1 + (int xm - int km) div sm)" and yn: "yn = nat (1 + (int xn - int kn) div sn)"
    and y: "wf3 y" "shape3 y = (ym, yn, no)"
    and inner: "\<And>i j (y1 :: 'a arr3). i < ym \<Longrightarrow> j < yn \<Longrightarrow> wf3 y1 \<Longrightarrow> shape3 y1 = (ym, yn, no) \<Longrightarrow>
       \<exists>y2. inner i (int (i * nat sm)) j (int (j * nat sn)) y1 = Inr y2 \<and>
            frame3 (ym, yn, no) (\<lambda>i' j' k'. i' = i \<and> j' = j) V y1 y2"
  shows "\<exists>y'. for_each (enumerate 0 (py_range 0 (int xm - int km + 1) sm)) (\<lambda>(iy, ix).
                 for_each (enumerate 0 (py_range 0 (int xn - int kn + 1) sn)) (\<lambda>(jy, jx) y.
                   inner iy ix jy jx y)) y = Inr y' \<and>
              frame3 (ym, yn, no) (\<lambda>i' j' k'. True) V y y'"
proof -
  let ?rows = "map (\<lambda>i. (i, int (i * nat sm))) [0..<ym]"
  let ?cols = "map (\<lambda>j. (j, int (j * nat sn))) [0..<yn]"
  let ?body = "\<lambda>(iy, ix). for_each ?cols (\<lambda>(jy, jx) y. inner iy ix jy jx y)"
  have "\<exists>y'. for_each ?rows ?body y = Inr y' \<and>
          frame3 (ym, yn, no) (\<lambda>i' j' k'. \<exists>n<length ?rows. i' = n) V y y'"
  proof (rule for_each_frame3 [OF y])
    fix n and y1 :: "'a arr3"
    assume n: "n < length ?rows" and y1: "wf3 y1" "shape3 y1 = (ym, yn, no)"
    then have n': "n < ym" and e: "?rows ! n = (n, int (n * nat sm))" by simp_all
    have "\<exists>y2. for_each ?cols (\<lambda>(jy, jx) y. inner n (int (n * nat sm)) jy jx y) y1 = Inr y2 \<and>
            frame3 (ym, yn, no) (\<lambda>i' j' k'. \<exists>l<length ?cols. i' = n \<and> j' = l) V y1 y2"
    proof (rule for_each_frame3 [OF y1])
      fix l and y3 :: "'a arr3"
      assume l: "l < length ?cols" and y3: "wf3 y3" "shape3 y3 = (ym, yn, no)"
      then have l': "l < yn" and e': "?cols ! l = (l, int (l * nat sn))" by simp_all
      show "\<exists>y2. (case ?cols ! l of (jy, jx) \<Rightarrow> \<lambda>y. inner n (int (n * nat sm)) jy jx y) y3 = Inr y2 \<and>
              frame3 (ym, yn, no) (\<lambda>i' j' k'. i' = n \<and> j' = l) V y3 y2"
        unfolding e' prod.case by (rule inner [OF n' l' y3])
    qed
    then obtain y2 where y2: "for_each ?cols (\<lambda>(jy, jx) y. inner n (int (n * nat sm)) jy jx y) y1 = Inr y2"
      "frame3 (ym, yn, no) (\<lambda>i' j' k'. \<exists>l<length ?cols. i' = n \<and> j' = l) V y1 y2" by blast
    have "frame3 (ym, yn, no) (\<lambda>i' j' k'. i' = n) V y1 y2"
      by (rule frame3_weaken' [OF y2(2)]) auto
    with y2(1) show "\<exists>y2. ?body (?rows ! n) y1 = Inr y2 \<and> frame3 (ym, yn, no) (\<lambda>i' j' k'. i' = n) V y1 y2"
      unfolding e prod.case by blast
  qed
  then obtain y' where y': "for_each ?rows ?body y = Inr y'"
      "frame3 (ym, yn, no) (\<lambda>i' j' k'. \<exists>n<length ?rows. i' = n) V y y'" by blast
  have "frame3 (ym, yn, no) (\<lambda>i' j' k'. True) V y y'"
    by (rule frame3_weaken' [OF y'(2)]) auto
  with y'(1) show ?thesis
    unfolding enumerate_range [OF geo(1,3)] enumerate_range [OF geo(2,4)] ym yn by blast
qed

lemma frame4_all:
  assumes "frame4 (n, a, b, c) (\<lambda>m' i' j' k'. True) V y y'"
  shows "y' = Arr4 (n, a, b, c) (tab4 n a b c V)"
  by (rule arr4_eqI) (use assms in \<open>simp_all add: frame4_def\<close>)

lemma frame3_all:
  assumes "frame3 (a, b, c) (\<lambda>i' j' k'. True) V y y'"
  shows "y' = Arr3 (a, b, c) (tab3 a b c V)"
  by (rule arr3_eqI) (use assms in \<open>simp_all add: frame3_def\<close>)

subsection \<open>The batched variant meets the contract\<close>

lemma sum_list_upt: "sum_list (map f [0..<n]) = (\<Sum>i<n. f i)"
  by (simp add: interv_sum_list_conv_sum_set_nat lessThan_atLeast0)

lemma contract_at_window_sum:
  "contract_at images filters biases strides n i j c = window_sum images filters strides n i j c + biases ! c"
  by (simp add: contract_at_def window_sum_def sum_list_upt mult.commute add.commute split: prod.splits)

lemma iadd_biases_tab:
  assumes "length biases = c"
  shows "iadd_biases (Arr4 (n, a, b, c) (tab4 n a b c V)) biases =
         Inr (Arr4 (n, a, b, c) (tab4 n a b c (\<lambda>m i j k. V m i j k + biases ! k)))"
proof -
  have "tab4 n a b c (\<lambda>m i j k. at4 (Arr4 (n, a, b, c) (tab4 n a b c V)) m i j k + biases ! bidx (length biases) k)
      = tab4 n a b c (\<lambda>m i j k. V m i j k + biases ! k)"
    by (rule tab4_cong) (simp add: at4_tab4 bidx_less assms)
  then show ?thesis using assms by (simp add: iadd_biases_def)
qed

lemma v2_loops:
  assumes im: "wf4 images" "shape4 images = (B, xm, xn, ci)"
    and fi: "wf4 filters" "shape4 filters = (km, kn, ci, no)"
    and geo: "1 \<le> sm" "1 \<le> sn" "km \<le> xm" "kn \<le> xn"
    and ym: "ym = nat (1 + (int xm - int km) div sm)" and yn: "yn = nat (1 + (int xn - int kn) div sn)"
  shows "for_each (enumerate 0 (py_range 0 (int xm - int km + 1) sm)) (\<lambda>(iy, ix).
             for_each (enumerate 0 (py_range 0 (int xn - int kn + 1) sn)) (\<lambda>(jy, jx) y.
               for_each [0..<no] (\<lambda>channel y.
                 (case filters_chan filters channel of Inl e \<Rightarrow> Inl e | Inr f \<Rightarrow>
                   (case mul34 f (slice4 images ix (ix + int km) jx (jx + int kn)) of Inl e \<Rightarrow> Inl e | Inr p \<Rightarrow>
                      set4_col y iy jy channel (np_sum_axes123 p)))) y))
             (np_zeros4 (B, ym, yn, no))
         = Inr (Arr4 (B, ym, yn, no) (tab4 B ym yn no (window_sum images filters (sm, sn))))"
proof -
  have "\<exists>y'. for_each (enumerate 0 (py_range 0 (int xm - int km + 1) sm)) (\<lambda>(iy, ix).
             for_each (enumerate 0 (py_range 0 (int xn - int kn + 1) sn)) (\<lambda>(jy, jx) y.
               for_each [0..<no] (\<lambda>channel y.
                 (case filters_chan filters channel of Inl e \<Rightarrow> Inl e | Inr f \<Rightarrow>
                   (case mul34 f (slice4 images ix (ix + int km) jx (jx + int kn)) of Inl e \<Rightarrow> Inl e | Inr p \<Rightarrow>
                      set4_col y iy jy channel (np_sum_axes123 p)))) y))
             (np_zeros4 (B, ym, yn, no)) = Inr y' \<and>
          frame4 (B, ym, yn, no) (\<lambda>m' i' j' k'. True) (window_sum images filters (sm, sn))
            (np_zeros4 (B, ym, yn, no)) y'"
  proof (rule window_loops4 [OF geo ym yn wf4_zeros shape4_zeros])
    fix i j and y1 :: "'a arr4"
    assume ij: "i < ym" "j < yn" and y1: "wf4 y1" "shape4 y1 = (B, ym, yn, no)"
    have fit: "i * nat sm + km \<le> xm" "j * nat sn + kn \<le> xn"
      using window_fits [OF geo(1,3)] window_fits [OF geo(2,4)] ij ym yn by simp_all
    show "\<exists>y2. for_each [0..<no] (\<lambda>channel y.
                 (case filters_chan filters channel of Inl e \<Rightarrow> Inl e | Inr f \<Rightarrow>
                   (case mul34 f (slice4 images (int (i * nat sm)) (int (i * nat sm) + int km)
                                     (int (j * nat sn)) (int (j * nat sn) + int kn)) of Inl e \<Rightarrow> Inl e | Inr p \<Rightarrow>
                      set4_col y i j channel (np_sum_axes123 p)))) y1 = Inr y2 \<and>
            frame4 (B, ym, yn, no) (\<lambda>m' i' j' k'. i' = i \<and> j' = j) (window_sum images filters (sm, sn)) y1 y2"
      by (rule v2_channel_loop [OF im fi fit y1 ij])
  qed
  then show ?thesis using frame4_all by blast
qed

lemma v2_correct:
  assumes "valid_input images filters biases strides"
  shows "filter_images_v2 g images filters biases strides = Inr (contract_output images filters biases strides)"
proof -
  obtain B xm xn ci where si: "shape4 images = (B, xm, xn, ci)" by (metis prod_cases4)
  obtain km kn ci' no where sf: "shape4 filters = (km, kn, ci', no)" by (metis prod_cases4)
  obtain sm sn where st: "strides = (sm, sn)" by (cases strides)
  from assms si sf st have v: "wf4 images" "wf4 filters" "ci' = ci" "length biases = no"
    "1 \<le> sm" "1 \<le> sn" "km \<le> xm" "kn \<le> xn"
    by (simp_all add: valid_input_def)
  define ym where "ym = nat (1 + (int xm - int km) div sm)"
  define yn where "yn = nat (1 + (int xn - int kn) div sn)"
  have nn: "0 \<le> 1 + (int xm - int km) div sm" "0 \<le> 1 + (int xn - int kn) div sn"
    using v by (simp_all add: pos_imp_zdiv_nonneg_iff add_nonneg_nonneg)
  note loops = v2_loops [OF v(1) si v(2) sf [unfolded v(3)] v(5-8) ym_def yn_def]
  have out: "contract_output images filters biases strides =
      Arr4 (B, ym, yn, no) (tab4 B ym yn no (\<lambda>m i j k. window_sum images filters (sm, sn) m i j k + biases ! k))"
    unfolding contract_output_def si sf st prod.case ym_def yn_def
    by (simp add: contract_at_window_sum [abs_def])
  show ?thesis
    unfolding filter_images_v2_def si sf st prod.case Let_def
    using v(5,6) nn loops
    by (simp add: ym_def yn_def v(3) iadd_biases_tab [OF v(4)] out [unfolded st ym_def yn_def])
qed

subsection \<open>The scalarized variant\<close>

text \<open>
  The three innermost loops of \<open>filter_images_v3\<close> accumulate the window sum in
  \<open>tmp\<close>, with the factors in the other order; every read is in range.
\<close>

lemma v3_tmp:
  assumes im: "wf4 images" "shape4 images = (B, xm, xn, ci)"
    and fi: "wf4 filters" "shape4 filters = (km, kn, ci, no)"
    and fit: "i * nat sm + km \<le> xm" "j * nat sn + kn \<le> xn"
    and it: "item < B" "oc < no"
  shows "for_each [0..<km] (\<lambda>h.
           for_each [0..<kn] (\<lambda>w.
             for_each [0..<ci] (\<lambda>input_chan tmp.
               (case get4 (slice4 images (int (i * nat sm)) (int (i * nat sm) + int km)
                                         (int (j * nat sn)) (int (j * nat sn) + int kn))
                          item h w input_chan of Inl e \<Rightarrow> Inl e | Inr c \<Rightarrow>
                 (case get4 filters h w input_chan oc of Inl e \<Rightarrow> Inl e | Inr f \<Rightarrow>
                    Inr (tmp + c * f)))))) 0
         = Inr (window_sum images filters (sm, sn) item i j oc)"
proof -
  let ?chunk = "slice4 images (int (i * nat sm)) (int (i * nat sm) + int km)
                              (int (j * nat sn)) (int (j * nat sn) + int kn)"
  let ?body = "\<lambda>h w input_chan tmp.
               (case get4 ?chunk item h w input_chan of Inl e \<Rightarrow> Inl e | Inr c \<Rightarrow>
                 (case get4 filters h w input_chan oc of Inl e \<Rightarrow> Inl e | Inr f \<Rightarrow>
                    Inr (tmp + c * f)))"
  let ?t = "\<lambda>h w k. at4 filters h w k oc * at4 images item (i * nat sm + h) (j * nat sn + w) k"
  have g1: "\<And>h w k. h < km \<Longrightarrow> w < kn \<Longrightarrow> k < ci \<Longrightarrow>
      get4 ?chunk item h w k = Inr (at4 images item (i * nat sm + h) (j * nat sn + w) k)"
    unfolding slice4_window [OF im fit] using it by (simp add: get4_def at4_tab4)
  have g2: "\<And>h w k. h < km \<Longrightarrow> w < kn \<Longrightarrow> k < ci \<Longrightarrow>
      get4 filters h w k oc = Inr (at4 filters h w k oc)"
    using fi(2) it by (simp add: get4_def)
  have inner: "\<And>h w t. h < km \<Longrightarrow> w < kn \<Longrightarrow>
      for_each [0..<ci] (?body h w) t = Inr (t + sum_list (map (?t h w) [0..<ci]))"
  proof (rule for_each_sum)
    fix h w k and t :: 'a
    assume hw: "h < km" "w < kn" and "k \<in> set [0..<ci]"
    then have k: "k < ci" by simp
    show "?body h w k t = Inr (t + ?t h w k)"
      unfolding g1 [OF hw k] g2 [OF hw k] sum.case by (simp add: mult.commute)
  qed
  have middle: "\<And>h t. h < km \<Longrightarrow>
      for_each [0..<kn] (\<lambda>w. for_each [0..<ci] (?body h w)) t =
        Inr (t + sum_list (map (\<lambda>w. sum_list (map (?t h w) [0..<ci])) [0..<kn]))"
  proof (rule for_each_sum)
    fix h w and t :: 'a
    assume "h < km" "w \<in> set [0..<kn]"
    then show "for_each [0..<ci] (?body h w) t = Inr (t + sum_list (map (?t h w) [0..<ci]))"
      by (intro inner) simp_all
  qed
  have "for_each [0..<km] (\<lambda>h. for_each [0..<kn] (\<lambda>w. for_each [0..<ci] (?body h w))) 0 =
        Inr (0 + sum_list (map (\<lambda>h. sum_list (map (\<lambda>w. sum_list (map (?t h w) [0..<ci])) [0..<kn])) [0..<km]))"
  proof (rule for_each_sum)
    fix h and t :: 'a
    assume "h \<in> set [0..<km]"
    then show "for_each [0..<kn] (\<lambda>w. for_each [0..<ci] (?body h w)) t =
        Inr (t + sum_list (map (\<lambda>w. sum_list (map (?t h w) [0..<ci])) [0..<kn]))"
      by (intro middle) simp
  qed
  then show ?thesis using fi(2) by (simp add: window_sum_def)
qed

lemma v3_item_loop:
  assumes im: "wf4 images" "shape4 images = (B, xm, xn, ci)"
    and fi: "wf4 filters" "shape4 filters = (km, kn, ci, no)"
    and fit: "i * nat sm + km \<le> xm" "j * nat sn + kn \<le> xn"
    and y: "wf4 y" "shape4 y = (B, ym, yn, no)" "i < ym" "j < yn" "oc < no"
  shows "\<exists>y'. for_each [0..<B] (\<lambda>item y.
                 (case for_each [0..<km] (\<lambda>h.
                          for_each [0..<kn] (\<lambda>w.
                            for_each [0..<ci] (\<lambda>input_chan tmp.
                              (case get4 (slice4 images (int (i * nat sm)) (int (i * nat sm) + int km)
                                              (int (j * nat sn)) (int (j * nat sn) + int kn))
                                         item h w input_chan of Inl e \<Rightarrow> Inl e | Inr c \<Rightarrow>
                                (case get4 filters h w input_chan oc of Inl e \<Rightarrow> Inl e | Inr f \<Rightarrow>
                                   Inr (tmp + c * f)))))) 0 of
                     Inl e \<Rightarrow> Inl e
                   | Inr tmp \<Rightarrow> set4 y item i j oc tmp)) y = Inr y' \<and>
           frame4 (B, ym, yn, no) (\<lambda>m' i' j' k'. i' = i \<and> j' = j \<and> k' = oc)
             (window_sum images filters (sm, sn)) y y'"
proof -
  let ?body = "\<lambda>item y.
                 (case for_each [0..<km] (\<lambda>h.
                          for_each [0..<kn] (\<lambda>w.
                            for_each [0..<ci] (\<lambda>input_chan tmp.
                              (case get4 (slice4 images (int (i * nat sm)) (int (i * nat sm) + int km)
                                              (int (j * nat sn)) (int (j * nat sn) + int kn))
                                         item h w input_chan of Inl e \<Rightarrow> Inl e | Inr c \<Rightarrow>
                                (case get4 filters h w input_chan oc of Inl e \<Rightarrow> Inl e | Inr f \<Rightarrow>
                                   Inr (tmp + c * f)))))) 0 of
                     Inl e \<Rightarrow> Inl e
                   | Inr tmp \<Rightarrow> set4 y item i j oc tmp)"
  have "\<exists>y'. for_each [0..<B] ?body y = Inr y' \<and>
          frame4 (B, ym, yn, no) (\<lambda>m' i' j' k'. \<exists>n<length [0..<B]. m' = n \<and> i' = i \<and> j' = j \<and> k' = oc)
            (window_sum images filters (sm, sn)) y y'"
  proof (rule for_each_frame4 [OF y(1,2)])
    fix n and y1 :: "'a arr4"
    assume n: "n < length [0..<B]" and y1: "wf4 y1" "shape4 y1 = (B, ym, yn, no)"
    then have n': "n < B" and e: "[0..<B] ! n = n" by simp_all
    show "\<exists>y2. ?body ([0..<B] ! n) y1 = Inr y2 \<and>
             frame4 (B, ym, yn, no) (\<lambda>m' i' j' k'. m' = n \<and> i' = i \<and> j' = j \<and> k' = oc)
               (window_sum images filters (sm, sn)) y1 y2"
      unfolding e v3_tmp [OF im fi fit n' y(5)] sum.case
      by (rule set4_frame [OF y1 n' y(3,4,5) refl])
  qed
  then obtain y' where y': "for_each [0..<B] ?body y = Inr y'"
    "frame4 (B, ym, yn, no) (\<lambda>m' i' j' k'. \<exists>n<length [0..<B]. m' = n \<and> i' = i \<and> j' = j \<and> k' = oc)
            (window_sum images filters (sm, sn)) y y'" by blast
  have "frame4 (B, ym, yn, no) (\<lambda>m' i' j' k'. i' = i \<and> j' = j \<and> k' = oc) (window_sum images filters (sm, sn)) y y'"
    by (rule frame4_weaken' [OF y'(2)]) auto
  with y'(1) show ?thesis by blast
qed

lemma v3_channel_loop:
  assumes im: "wf4 images" "shape4 images = (B, xm, xn, ci)"
    and fi: "wf4 filters" "shape4 filters = (km, kn, ci, no)"
    and fit: "i * nat sm + km \<le> xm" "j * nat sn + kn \<le> xn"
    and y: "wf4 y" "shape4 y = (B, ym, yn, no)" "i < ym" "j < yn"
  shows "\<exists>y'. for_each [0..<no] (\<lambda>output_chan.
               for_each [0..<B] (\<lambda>item y.
                 (case for_each [0..<km] (\<lambda>h.
                          for_each [0..<kn] (\<lambda>w.
                            for_each [0..<ci] (\<lambda>input_chan tmp.
                              (case get4 (slice4 images (int (i * nat sm)) (int (i * nat sm) + int km)
                                              (int (j * nat sn)) (int (j * nat sn) + int kn))
                                         item h w input_chan of Inl e \<Rightarrow> Inl e | Inr c \<Rightarrow>
                                (case get4 filters h w input_chan output_chan of Inl e \<Rightarrow> Inl e | Inr f \<Rightarrow>
                                   Inr (tmp + c * f)))))) 0 of
                     Inl e \<Rightarrow> Inl e
                   | Inr tmp \<Rightarrow> set4 y item i j output_chan tmp))) y = Inr y' \<and>
           frame4 (B, ym, yn, no) (\<lambda>m' i' j' k'. i' = i \<and> j' = j)
             (window_sum images filters (sm, sn)) y y'"
proof -
  let ?body = "\<lambda>output_chan.
               for_each [0..<B] (\<lambda>item y.
                 (case for_each [0..<km] (\<lambda>h.
                          for_each [0..<kn] (\<lambda>w.
                            for_each [0..<ci] (\<lambda>input_chan tmp.
                              (case get4 (slice4 images (int (i * nat sm)) (int (i * nat sm) + int km)
                                              (int (j * nat sn)) (int (j * nat sn) + int kn))
                                         item h w input_chan of Inl e \<Rightarrow> Inl e | Inr c \<Rightarrow>
                                (case get4 filters h w input_chan output_chan of Inl e \<Rightarrow> Inl e | Inr f \<Rightarrow>
                                   Inr (tmp + c * f)))))) 0 of
                     Inl e \<Rightarrow> Inl e
                   | Inr tmp \<Rightarrow> set4 y item i j output_chan tmp))"
  have "\<exists>y'. for_each [0..<no] ?body y = Inr y' \<and>
          frame4 (B, ym, yn, no) (\<lambda>m' i' j' k'. \<exists>n<length [0..<no]. i' = i \<and> j' = j \<and> k' = n)
            (window_sum images filters (sm, sn)) y y'"
  proof (rule for_each_frame4 [OF y(1,2)])
    fix n and y1 :: "'a arr4"
    assume n: "n < length [0..<no]" and y1: "wf4 y1" "shape4 y1 = (B, ym, yn, no)"
    then have n': "n < no" and e: "[0..<no] ! n = n" by simp_all
    show "\<exists>y2. ?body ([0..<no] ! n) y1 = Inr y2 \<and>
             frame4 (B, ym, yn, no) (\<lambda>m' i' j' k'. i' = i \<and> j' = j \<and> k' = n)
               (window_sum images filters (sm, sn)) y1 y2"
      unfolding e by (rule v3_item_loop [OF im fi fit y1 y(3,4) n'])
  qed
  then obtain y' where y': "for_each [0..<no] ?body y = Inr y'"
    "frame4 (B, ym, yn, no) (\<lambda>m' i' j' k'. \<exists>n<length [0..<no]. i' = i \<and> j' = j \<and> k' = n)
            (window_sum images filters (sm, sn)) y y'" by blast
  have "frame4 (B, ym, yn, no) (\<lambda>m' i' j' k'. i' = i \<and> j' = j) (window_sum images filters (sm, sn)) y y'"
    by (rule frame4_weaken' [OF y'(2)]) auto
  with y'(1) show ?thesis by blast
qed

lemma v3_loops:
  assumes im: "wf4 images" "shape4 images = (B, xm, xn, ci)"
    and fi: "wf4 filters" "shape4 filters = (km, kn, ci, no)"
    and geo: "1 \<le> sm" "1 \<le> sn" "km \<le> xm" "kn \<le> xn"
    and ym: "ym = nat (1 + (int xm - int km) div sm)" and yn: "yn = nat (1 + (int xn - int kn) div sn)"
  shows "for_each (enumerate 0 (py_range 0 (int xm - int km + 1) sm)) (\<lambda>(iy, ix).
             for_each (enumerate 0 (py_range 0 (int xn - int kn + 1) sn)) (\<lambda>(jy, jx) y.
               for_each [0..<no] (\<lambda>output_chan.
                 for_each [0..<B] (\<lambda>item y.
                   (case for_each [0..<km] (\<lambda>h.
                          for_each [0..<kn] (\<lambda>w.
                            for_each [0..<ci] (\<lambda>input_chan tmp.
                              (case get4 (slice4 images ix (ix + int km) jx (jx + int kn))
                                         item h w input_chan of Inl e \<Rightarrow> Inl e | Inr c \<Rightarrow>
                                (case get4 filters h w input_chan output_chan of Inl e \<Rightarrow> Inl e | Inr f \<Rightarrow>
                                   Inr (tmp + c * f)))))) 0 of
                     Inl e \<Rightarrow> Inl e
                   | Inr tmp \<Rightarrow> set4 y item iy jy output_chan tmp))) y))
             (np_zeros4 (B, ym, yn, no))
         = Inr (Arr4 (B, ym, yn, no) (tab4 B ym yn no (window_sum images filters (sm, sn))))"
proof -
  have "\<exists>y'. for_each (enumerate 0 (py_range 0 (int xm - int km + 1) sm)) (\<lambda>(iy, ix).
             for_each (enumerate 0 (py_range 0 (int xn - int kn + 1) sn)) (\<lambda>(jy, jx) y.
               for_each [0..<no] (\<lambda>output_chan.
                 for_each [0..<B] (\<lambda>item y.
                   (case for_each [0..<km] (\<lambda>h.
                          for_each [0..<kn] (\<lambda>w.
                            for_each [0..<ci] (\<lambda>input_chan tmp.
                              (case get4 (slice4 images ix (ix + int km) jx (jx + int kn))
                                         item h w input_chan of Inl e \<Rightarrow> Inl e | Inr c \<Rightarrow>
                                (case get4 filters h w input_chan output_chan of Inl e \<Rightarrow> Inl e | Inr f \<Rightarrow>
                                   Inr (tmp + c * f)))))) 0 of
                     Inl e \<Rightarrow> Inl e
                   | Inr tmp \<Rightarrow> set4 y item iy jy output_chan tmp))) y))
             (np_zeros4 (B, ym, yn, no)) = Inr y' \<and>
          frame4 (B, ym, yn, no) (\<lambda>m' i' j' k'. True) (window_sum images filters (sm, sn))
            (np_zeros4 (B, ym, yn, no)) y'"
  proof (rule window_loops4 [OF geo ym yn wf4_zeros shape4_zeros])
    fix i j and y1 :: "'a arr4"
    assume ij: "i < ym" "j < yn" and y1: "wf4 y1" "shape4 y1 = (B, ym, yn, no)"
    have fit: "i * nat sm + km \<le> xm" "j * nat sn + kn \<le> xn"
      using window_fits [OF geo(1,3)] window_fits [OF geo(2,4)] ij ym yn by simp_all
    show "\<exists>y2. for_each [0..<no] (\<lambda>output_chan.
                 for_each [0..<B] (\<lambda>item y.
                   (case for_each [0..<km] (\<lambda>h.
                          for_each [0..<kn] (\<lambda>w.
                            for_each [0..<ci] (\<lambda>input_chan tmp.
                              (case get4 (slice4 images (int (i * nat sm)) (int (i * nat sm) + int km)
                                              (int (j * nat sn)) (int (j * nat sn) + int kn))
                                         item h w input_chan of Inl e \<Rightarrow> Inl e | Inr c \<Rightarrow>
                                (case get4 filters h w input_chan output_chan of Inl e \<Rightarrow> Inl e | Inr f \<Rightarrow>
                                   Inr (tmp + c * f)))))) 0 of
                     Inl e \<Rightarrow> Inl e
                   | Inr tmp \<Rightarrow> set4 y item i j output_chan tmp))) y1 = Inr y2 \<and>
            frame4 (B, ym, yn, no) (\<lambda>m' i' j' k'. i' = i \<and> j' = j) (window_sum images filters (sm, sn)) y1 y2"
      by (rule v3_channel_loop [OF im fi fit y1 ij])
  qed
  then show ?thesis using frame4_all by blast
qed

lemma v3_correct:
  assumes "valid_input images filters biases strides"
  shows "filter_images_v3 g images filters biases strides = Inr (contract_output images filters biases strides)"
proof -
  obtain B xm xn ci where si: "shape4 images = (B, xm, xn, ci)" by (metis prod_cases4)
  obtain km kn ci' no where sf: "shape4 filters = (km, kn, ci', no)" by (metis prod_cases4)
  obtain sm sn where st: "strides = (sm, sn)" by (cases strides)
  from assms si sf st have v: "wf4 images" "wf4 filters" "ci' = ci" "length biases = no"
    "1 \<le> sm" "1 \<le> sn" "km \<le> xm" "kn \<le> xn"
    by (simp_all add: valid_input_def)
  define ym where "ym = nat (1 + (int xm - int km) div sm)"
  define yn where "yn = nat (1 + (int xn - int kn) div sn)"
  have nn: "0 \<le> 1 + (int xm - int km) div sm" "0 \<le> 1 + (int xn - int kn) div sn"
    using v by (simp_all add: pos_imp_zdiv_nonneg_iff add_nonneg_nonneg)
  note loops = v3_loops [OF v(1) si v(2) sf [unfolded v(3)] v(5-8) ym_def yn_def]
  have out: "contract_output images filters biases strides =
      Arr4 (B, ym, yn, no) (tab4 B ym yn no (\<lambda>m i j k. window_sum images filters (sm, sn) m i j k + biases ! k))"
    unfolding contract_output_def si sf st prod.case ym_def yn_def
    by (simp add: contract_at_window_sum [abs_def])
  show ?thesis
    unfolding filter_images_v3_def si sf st prod.case Let_def
    using v(5,6) nn loops
    by (simp add: ym_def yn_def v(3) iadd_biases_tab [OF v(4)] out [unfolded st ym_def yn_def])
qed

subsection \<open>Broadcasting the channel axis\<close>

lemma bdim_bidx_less: "bdim x y = Some d \<Longrightarrow> k < d \<Longrightarrow> bidx x k < x \<and> bidx y k < y"
  by (auto simp: bdim_def bidx_def split: if_splits)

text \<open>
  \<open>filter_image\<close> multiplies the filter slice and the image chunk with numpy's
  broadcasting, so it also succeeds when one of the two channel counts is 1; equal
  counts are the special case used by \<open>filter_images_v1\<close>.
\<close>

lemma mul33_tab_broadcast:
  assumes "bdim ni ci = Some d"
  shows "mul33 (Arr3 (a, b, ni) (tab3 a b ni F)) (Arr3 (a, b, ci) (tab3 a b ci X)) =
     Inr (Arr3 (a, b, d) (tab3 a b d (\<lambda>h w k. F h w (bidx ni k) * X h w (bidx ci k))))"
proof -
  have "tab3 a b d (\<lambda>i j k. at3 (Arr3 (a, b, ni) (tab3 a b ni F)) (bidx a i) (bidx b j) (bidx ni k) *
                          at3 (Arr3 (a, b, ci) (tab3 a b ci X)) (bidx a i) (bidx b j) (bidx ci k))
        = tab3 a b d (\<lambda>h w k. F h w (bidx ni k) * X h w (bidx ci k))"
    by (rule tab3_cong) (use bdim_bidx_less [OF assms] in \<open>simp add: bidx_less at3_tab3\<close>)
  then show ?thesis using assms by (simp add: mul33_def bdim_same)
qed

lemma filter_image_channel_loop:
  assumes im: "wf3 img" "shape3 img = (xm, xn, ci)"
    and fi: "wf4 filters" "shape4 filters = (km, kn, ni, no)"
    and bd: "bdim ni ci = Some d"
    and fit: "i * nat sm + km \<le> xm" "j * nat sn + kn \<le> xn"
    and y: "wf3 y" "shape3 y = (ym, yn, no)" "i < ym" "j < yn"
    and V: "V = (\<lambda>i j ch. sum_list (map (\<lambda>h. sum_list (map (\<lambda>w. sum_list (map (\<lambda>k.
          at4 filters h w (bidx ni k) ch * at3 img (i * nat sm + h) (j * nat sn + w) (bidx ci k))
          [0..<d])) [0..<kn])) [0..<km]))"
  shows "\<exists>y'. for_each [0..<no] (\<lambda>channel y.
            (case filters_chan filters channel of Inl e \<Rightarrow> Inl e | Inr f \<Rightarrow>
              (case mul33 f (slice3 img (int (i * nat sm)) (int (i * nat sm) + int km)
                                        (int (j * nat sn)) (int (j * nat sn) + int kn)) of
                 Inl e \<Rightarrow> Inl e
               | Inr p \<Rightarrow> set3 y i j channel (np_sum3 p)))) y = Inr y' \<and>
           frame3 (ym, yn, no) (\<lambda>i' j' k'. i' = i \<and> j' = j) V y y'"
proof -
  let ?body = "\<lambda>channel y.
            (case filters_chan filters channel of Inl e \<Rightarrow> Inl e | Inr f \<Rightarrow>
              (case mul33 f (slice3 img (int (i * nat sm)) (int (i * nat sm) + int km)
                                        (int (j * nat sn)) (int (j * nat sn) + int kn)) of
                 Inl e \<Rightarrow> Inl e
               | Inr p \<Rightarrow> set3 y i j channel (np_sum3 p)))"
  have "\<exists>y'. for_each [0..<no] ?body y = Inr y' \<and>
          frame3 (ym, yn, no) (\<lambda>i' j' k'. \<exists>n<length [0..<no]. i' = i \<and> j' = j \<and> k' = n) V y y'"
  proof (rule for_each_frame3 [OF y(1,2)])
    fix n and y1 :: "'a arr3"
    assume n: "n < length [0..<no]" and y1: "wf3 y1" "shape3 y1 = (ym, yn, no)"
    then have n': "n < no" and e: "[0..<no] ! n = n" by simp_all
    have s: "np_sum3 (Arr3 (km, kn, d) (tab3 km kn d
               (\<lambda>h w k. at4 filters h w (bidx ni k) n * at3 img (i * nat sm + h) (j * nat sn + w) (bidx ci k)))) = V i j n"
      by (simp add: np_sum3_def sum_img_tab3 V)
    show "\<exists>y2. ?body ([0..<no] ! n) y1 = Inr y2 \<and>
             frame3 (ym, yn, no) (\<lambda>i' j' k'. i' = i \<and> j' = j \<and> k' = n) V y1 y2"
      unfolding e filters_chan_tab [OF fi n'] slice3_window [OF im fit] sum.case
        mul33_tab_broadcast [OF bd] s
      by (rule set3_frame [OF y1 y(3,4) n' refl])
  qed
  then obtain y' where y': "for_each [0..<no] ?body y = Inr y'"
    "frame3 (ym, yn, no) (\<lambda>i' j' k'. \<exists>n<length [0..<no]. i' = i \<and> j' = j \<and> k' = n) V y y'" by blast
  have "frame3 (ym, yn, no) (\<lambda>i' j' k'. i' = i \<and> j' = j) V y y'"
    by (rule frame3_weaken' [OF y'(2)]) auto
  with y'(1) show ?thesis by blast
qed

lemma filter_image_broadcast:
  assumes im: "wf3 img" "shape3 img = (xm, xn, ci)"
    and fi: "wf4 filters" "shape4 filters = (km, kn, ni, no)"
    and bd: "bdim ni ci = Some d"
    and geo: "1 \<le> sm" "1 \<le> sn" "km \<le> xm" "kn \<le> xn"
    and ym: "ym = nat (1 + (int xm - int km) div sm)" and yn: "yn = nat (1 + (int xn - int kn) div sn)"
  shows "filter_image g img filters (sm, sn) =
           Inr (Arr3 (ym, yn, no) (tab3 ym yn no (\<lambda>i j ch.
             sum_list (map (\<lambda>h. sum_list (map (\<lambda>w. sum_list (map (\<lambda>k.
               at4 filters h w (bidx ni k) ch * at3 img (i * nat sm + h) (j * nat sn + w) (bidx ci k))
               [0..<d])) [0..<kn])) [0..<km]))))"
proof -
  define V where "V = (\<lambda>i j ch. sum_list (map (\<lambda>h. sum_list (map (\<lambda>w. sum_list (map (\<lambda>k.
          at4 filters h w (bidx ni k) ch * at3 img (i * nat sm + h) (j * nat sn + w) (bidx ci k))
          [0..<d])) [0..<kn])) [0..<km]))"
  have "\<exists>y'. for_each (enumerate 0 (py_range 0 (int xm - int km + 1) sm)) (\<lambda>(iy, ix).
        for_each (enumerate 0 (py_range 0 (int xn - int kn + 1) sn)) (\<lambda>(jy, jx) y.
          for_each [0..<no] (\<lambda>channel y.
            (case filters_chan filters channel of Inl e \<Rightarrow> Inl e | Inr f \<Rightarrow>
              (case mul33 f (slice3 img ix (ix + int km) jx (jx + int kn)) of Inl e \<Rightarrow> Inl e | Inr p \<Rightarrow>
                 set3 y iy jy channel (np_sum3 p)))) y))
        (np_zeros3 (ym, yn, no)) = Inr y' \<and>
        frame3 (ym, yn, no) (\<lambda>i' j' k'. True) V (np_zeros3 (ym, yn, no)) y'"
  proof (rule window_loops3 [OF geo ym yn wf3_zeros shape3_zeros])
    fix i j and y1 :: "'a arr3"
    assume ij: "i < ym" "j < yn" and y1: "wf3 y1" "shape3 y1 = (ym, yn, no)"
    have fit: "i * nat sm + km \<le> xm" "j * nat sn + kn \<le> xn"
      using window_fits [OF geo(1,3)] window_fits [OF geo(2,4)] ij ym yn by simp_all
    show "\<exists>y2. for_each [0..<no] (\<lambda>channel y.
            (case filters_chan filters channel of Inl e \<Rightarrow> Inl e | Inr f \<Rightarrow>
              (case mul33 f (slice3 img (int (i * nat sm)) (int (i * nat sm) + int km)
                                        (int (j * nat sn)) (int (j * nat sn) + int kn)) of
                 Inl e \<Rightarrow> Inl e
               | Inr p \<Rightarrow> set3 y i j channel (np_sum3 p)))) y1 = Inr y2 \<and>
            frame3 (ym, yn, no) (\<lambda>i' j' k'. i' = i \<and> j' = j) V y1 y2"
      by (rule filter_image_channel_loop [OF im fi bd fit y1 ij V_def])
  qed
  then have loops: "for_each (enumerate 0 (py_range 0 (int xm - int km + 1) sm)) (\<lambda>(iy, ix).
        for_each (enumerate 0 (py_range 0 (int xn - int kn + 1) sn)) (\<lambda>(jy, jx) y.
          for_each [0..<no] (\<lambda>channel y.
            (case filters_chan filters channel of Inl e \<Rightarrow> Inl e | Inr f \<Rightarrow>
              (case mul33 f (slice3 img ix (ix + int km) jx (jx + int kn)) of Inl e \<Rightarrow> Inl e | Inr p \<Rightarrow>
                 set3 y iy jy channel (np_sum3 p)))) y))
        (np_zeros3 (ym, yn, no)) = Inr (Arr3 (ym, yn, no) (tab3 ym yn no V))"
    using frame3_all by blast
  have nn: "0 \<le> 1 + (int xm - int km) div sm" "0 \<le> 1 + (int xn - int kn) div sn"
    using geo by (simp_all add: pos_imp_zdiv_nonneg_iff add_nonneg_nonneg)
  show ?thesis
    unfolding filter_image_def im(2) fi(2) prod.case Let_def V_def [symmetric]
    using geo(1,2) nn loops by (simp add: ym yn)
qed

lemma filter_image_correct:
  assumes im: "wf3 img" "shape3 img = (xm, xn, ci)"
    and fi: "wf4 filters" "shape4 filters = (km, kn, ci, no)"
    and geo: "1 \<le> sm" "1 \<le> sn" "km \<le> xm" "kn \<le> xn"
    and ym: "ym = nat (1 + (int xm - int km) div sm)" and yn: "yn = nat (1 + (int xn - int kn) div sn)"
  shows "filter_image g img filters (sm, sn) =
           Inr (Arr3 (ym, yn, no) (tab3 ym yn no (\<lambda>i j ch.
             sum_list (map (\<lambda>h. sum_list (map (\<lambda>w. sum_list (map (\<lambda>k.
               at4 filters h w k ch * at3 img (i * nat sm + h) (j * nat sn + w) k)
               [0..<ci])) [0..<kn])) [0..<km]))))"
proof -
  have eq: "\<And>h w i j ch.
      map (\<lambda>k. at4 filters h w (bidx ci k) ch * at3 img (i * nat sm + h) (j * nat sn + w) (bidx ci k)) [0..<ci]
    = map (\<lambda>k. at4 filters h w k ch * at3 img (i * nat sm + h) (j * nat sn + w) k) [0..<ci]"
    by (rule map_cong [OF refl]) (simp add: bidx_less)
  show ?thesis
    unfolding filter_image_broadcast [OF im fi bdim_same geo ym yn, of g] eq ..
qed

subsection \<open>The per-image variant\<close>

lemma add_biases4_tab:
  assumes "length biases = c"
  shows "add_biases4 (Arr4 (n, a, b, c) (tab4 n a b c V)) biases =
         Inr (Arr4 (n, a, b, c) (tab4 n a b c (\<lambda>m i j k. V m i j k + biases ! k)))"
proof -
  have "tab4 n a b c (\<lambda>m i j k. at4 (Arr4 (n, a, b, c) (tab4 n a b c V)) m i j (bidx c k) + biases ! bidx (length biases) k)
      = tab4 n a b c (\<lambda>m i j k. V m i j k + biases ! k)"
    by (rule tab4_cong) (simp add: at4_tab4 bidx_less assms)
  then show ?thesis using assms by (simp add: add_biases4_def bdim_same)
qed

lemma v1_correct:
  assumes "valid_input batch filters biases strides" and "shape4 batch = (B, xm, xn, ci)" and "0 < B"
  shows "filter_images_v1 g batch filters biases strides = Inr (Rank4 (contract_output batch filters biases strides))"
proof -
  note si = assms(2)
  obtain km kn ci' no where sf: "shape4 filters = (km, kn, ci', no)" by (metis prod_cases4)
  obtain sm sn where st: "strides = (sm, sn)" by (cases strides)
  from assms si sf st have v: "wf4 batch" "wf4 filters" "ci' = ci" "length biases = no"
    "1 \<le> sm" "1 \<le> sn" "km \<le> xm" "kn \<le> xn"
    by (simp_all add: valid_input_def)
  define ym where "ym = nat (1 + (int xm - int km) div sm)"
  define yn where "yn = nat (1 + (int xn - int kn) div sn)"
  define out where "out = (\<lambda>img :: 'a arr3. Arr3 (ym, yn, no) (tab3 ym yn no (\<lambda>i j ch.
             sum_list (map (\<lambda>h. sum_list (map (\<lambda>w. sum_list (map (\<lambda>k.
               at4 filters h w k ch * at3 img (i * nat sm + h) (j * nat sn + w) k)
               [0..<ci])) [0..<kn])) [0..<km]))))"
  note w = wf4_nth [OF v(1) si]
  have each: "\<And>img. img \<in> set (images_of batch) \<Longrightarrow> filter_image g img filters (sm, sn) = Inr (out img)"
  proof -
    fix img assume "img \<in> set (images_of batch)"
    then obtain m where m: "m < B" "img = Arr3 (xm, xn, ci) (vals4 batch ! m)"
      using w by (auto simp: images_of_def si in_set_conv_nth)
    have "wf3 img" using w m by (simp add: wf3_def list_all_length)
    moreover have "shape3 img = (xm, xn, ci)" using m by simp
    ultimately show "filter_image g img filters (sm, sn) = Inr (out img)"
      unfolding out_def
      by (rule filter_image_correct [OF _ _ v(2) sf [unfolded v(3)] v(5-8) ym_def yn_def])
  qed
  have comp: "comprehension (\<lambda>img. filter_image g img filters (sm, sn)) (images_of batch)
              = Inr (map out (images_of batch))"
    by (rule comprehension_Inr) (rule each)
  have len: "length (images_of batch) = B" using w by (simp add: images_of_def si)
  have stack: "np_array (map out (images_of batch)) =
      Inr (Rank4 (Arr4 (B, ym, yn, no) (tab4 B ym yn no (window_sum batch filters (sm, sn)))))"
  proof -
    obtain x xs where xs: "images_of batch = x # xs"
      using len assms(3) by (cases "images_of batch") auto
    have "map vals3 (map out (images_of batch)) = tab4 B ym yn no (window_sum batch filters (sm, sn))"
    proof (rule nth_equalityI)
      show "length (map vals3 (map out (images_of batch))) = length (tab4 B ym yn no (window_sum batch filters (sm, sn)))"
        using len by (simp add: length_tab4)
    next
      fix m assume "m < length (map vals3 (map out (images_of batch)))"
      then have m: "m < B" using len by simp
      have im: "images_of batch ! m = Arr3 (xm, xn, ci) (vals4 batch ! m)"
        using m w by (simp add: images_of_def si)
      have "tab3 ym yn no (\<lambda>i j ch.
             sum_list (map (\<lambda>h. sum_list (map (\<lambda>w. sum_list (map (\<lambda>k.
               at4 filters h w k ch * at3 (Arr3 (xm, xn, ci) (vals4 batch ! m)) (i * nat sm + h) (j * nat sn + w) k)
               [0..<ci])) [0..<kn])) [0..<km])) = tab3 ym yn no (window_sum batch filters (sm, sn) m)"
        by (rule tab3_cong) (simp add: window_sum_def sf v(3) at3_def at4_def)
      then show "map vals3 (map out (images_of batch)) ! m = tab4 B ym yn no (window_sum batch filters (sm, sn)) ! m"
        using m len by (simp add: im out_def tab4_def)
    qed
    moreover have "list_all (\<lambda>y. shape3 y = shape3 (out x)) (map out xs)"
      by (simp add: list_all_iff out_def)
    moreover have "Suc (length xs) = B" using len xs by simp
    ultimately show ?thesis
      unfolding xs by (simp add: out_def)
  qed
  have outp: "contract_output batch filters biases (sm, sn) =
      Arr4 (B, ym, yn, no) (tab4 B ym yn no (\<lambda>m i j k. window_sum batch filters (sm, sn) m i j k + biases ! k))"
    unfolding contract_output_def si sf prod.case ym_def yn_def
    by (simp add: contract_at_window_sum [abs_def])
  show ?thesis
    unfolding filter_images_v1_def st comp sum.case stack add_biases.simps
      add_biases4_tab [OF v(4)] outp ..
qed

subsection \<open>The output of the contract\<close>

lemma contract_output_shape:
  assumes "shape4 images = (B, H, W, Cin)" "shape4 filters = (kH, kW, Cin', Cout)"
  shows "shape4 (contract_output images filters biases (sH, sW)) =
           (B, nat (1 + (int H - int kH) div sH), nat (1 + (int W - int kW) div sW), Cout)"
  using assms by (simp add: contract_output_def)

lemma contract_output_wf: "wf4 (contract_output images filters biases strides)"
  by (simp add: contract_output_def wf4_tab4 split: prod.splits)

lemma contract_output_at:
  assumes "shape4 images = (B, H, W, Cin)" "shape4 filters = (kH, kW, Cin', Cout)"
    and "n < B" "i < nat (1 + (int H - int kH) div sH)" "j < nat (1 + (int W - int kW) div sW)" "c < Cout"
  shows "at4 (contract_output images filters biases (sH, sW)) n i j c =
           biases ! c + (\<Sum>dh<kH. \<Sum>dw<kW. \<Sum>ci<Cin'.
             at4 images n (i * nat sH + dh) (j * nat sW + dw) ci * at4 filters dh dw ci c)"
  using assms by (simp add: contract_output_def at4_tab4 contract_at_def)

subsection \<open>Loops that raise, and the shape a loop keeps\<close>

text \<open>
  The failing runs: a loop raises at the first element whose body raises, and whatever
  the loops do, they keep the shape of the array they write to.
\<close>

lemma for_each_fails_at:
  assumes "n < length ks"
    and "\<And>m s. m < n \<Longrightarrow> \<exists>s'. body (ks ! m) s = Inr s'"
    and "\<And>s. body (ks ! n) s = Inl e"
  shows "for_each ks body s = Inl e"
  using assms
proof (induction ks arbitrary: n s)
  case Nil
  then show ?case by simp
next
  case (Cons k ks)
  show ?case
  proof (cases n)
    case 0
    with Cons.prems(3) [of s] show ?thesis by simp
  next
    case (Suc n')
    from Cons.prems(2) [of 0 s] Suc obtain s1 where s1: "body k s = Inr s1" by auto
    have "for_each ks body s1 = Inl e"
    proof (rule Cons.IH [of n'])
      show "n' < length ks" using Cons.prems(1) Suc by simp
      show "\<exists>s'. body (ks ! m) s = Inr s'" if "m < n'" for m s
        using Cons.prems(2) [of "Suc m" s] that Suc by simp
      show "body (ks ! n') s = Inl e" for s
        using Cons.prems(3) [of s] Suc by simp
    qed
    with s1 show ?thesis by simp
  qed
qed

lemma enumerate_range_first:
  assumes "1 \<le> s" "k \<le> x"
  shows "\<exists>rest. enumerate 0 (py_range 0 (int x - int k + 1) s) = (0, 0) # rest"
proof -
  have "0 \<le> (int x - int k) div s"
    using assms by (simp add: pos_imp_zdiv_nonneg_iff)
  then have "0 < nat (1 + (int x - int k) div s)" by simp
  then obtain n where "nat (1 + (int x - int k) div s) = Suc n"
    by (cases "nat (1 + (int x - int k) div s)") auto
  then show ?thesis
    unfolding enumerate_range [OF assms] by (simp add: upt_conv_Cons del: upt_Suc)
qed

lemma upt_first: "0 < n \<Longrightarrow> [0..<n] = 0 # [1..<n]"
  by (simp add: upt_conv_Cons)

lemma bdim_None: "x \<noteq> y \<Longrightarrow> x \<noteq> 1 \<Longrightarrow> y \<noteq> 1 \<Longrightarrow> bdim x y = None"
  by (simp add: bdim_def)

lemma slice_len_first: "k \<le> n \<Longrightarrow> slice_len n 0 (0 + int k) = k"
  using slice_len_window [of 0 k n] by simp

lemma set3_shape: "set3 y i j k v = Inr y' \<Longrightarrow> shape3 y' = shape3 y"
  by (auto simp: set3_def split: prod.splits if_splits)

lemma set4_shape: "set4 y m i j k v = Inr y' \<Longrightarrow> shape4 y' = shape4 y"
  by (auto simp: set4_def split: prod.splits if_splits)

lemma set4_col_shape: "set4_col y i j k vec = Inr y' \<Longrightarrow> shape4 y' = shape4 y"
  by (auto simp: set4_col_def split: prod.splits if_splits)

lemma window_loops_keep:
  assumes "for_each rows (\<lambda>(iy, ix). for_each cols (\<lambda>(jy, jx) y. inner iy ix jy jx y)) y = Inr y'"
    and "P y"
    and "\<And>iy ix jy jx y y'. P y \<Longrightarrow> inner iy ix jy jx y = Inr y' \<Longrightarrow> P y'"
  shows "P y'"
proof (rule for_each_preserves [where P = P, OF assms(1,2)])
  fix k s s'
  assume "P s" and b: "(case k of (iy, ix) \<Rightarrow> for_each cols (\<lambda>(jy, jx) y. inner iy ix jy jx y)) s = Inr s'"
  obtain iy ix where k: "k = (iy, ix)" by (cases k)
  from b have b': "for_each cols (\<lambda>(jy, jx) y. inner iy ix jy jx y) s = Inr s'" by (simp add: k)
  show "P s'"
  proof (rule for_each_preserves [where P = P, OF b' \<open>P s\<close>])
    fix l t t'
    assume "P t" and c: "(case l of (jy, jx) \<Rightarrow> \<lambda>y. inner iy ix jy jx y) t = Inr t'"
    obtain jy jx where l: "l = (jy, jx)" by (cases l)
    from c have "inner iy ix jy jx t = Inr t'" by (simp add: l)
    with \<open>P t\<close> show "P t'" by (rule assms(3))
  qed
qed

lemma filter_image_shape:
  assumes "filter_image g img filters (sm, sn) = Inr y"
    and "shape3 img = (xm, xn, ci)" "shape4 filters = (km, kn, ni, no)"
  shows "\<exists>a b. shape3 y = (a, b, no)"
proof -
  let ?ym = "1 + (int xm - int km) div sm" and ?yn = "1 + (int xn - int kn) div sn"
  from assms have loops: "for_each (enumerate 0 (py_range 0 (int xm - int km + 1) sm)) (\<lambda>(iy, ix).
        for_each (enumerate 0 (py_range 0 (int xn - int kn + 1) sn)) (\<lambda>(jy, jx) y.
          for_each [0..<no] (\<lambda>channel y.
            (case filters_chan filters channel of Inl e \<Rightarrow> Inl e | Inr f \<Rightarrow>
              (case mul33 f (slice3 img ix (ix + int km) jx (jx + int kn)) of Inl e \<Rightarrow> Inl e | Inr p \<Rightarrow>
                 set3 y iy jy channel (np_sum3 p)))) y))
        (np_zeros3 (nat ?ym, nat ?yn, no)) = Inr y"
    by (simp add: filter_image_def Let_def split: if_splits)
  have "shape3 y = (nat ?ym, nat ?yn, no)"
  proof (rule window_loops_keep [OF loops])
    show "shape3 (np_zeros3 (nat ?ym, nat ?yn, no) :: 'a arr3) = (nat ?ym, nat ?yn, no)"
      by (rule shape3_zeros)
  next
    fix iy ix jy jx and y1 y2 :: "'a arr3"
    assume s: "shape3 y1 = (nat ?ym, nat ?yn, no)"
      and b: "for_each [0..<no] (\<lambda>channel y.
            (case filters_chan filters channel of Inl e \<Rightarrow> Inl e | Inr f \<Rightarrow>
              (case mul33 f (slice3 img ix (ix + int km) jx (jx + int kn)) of Inl e \<Rightarrow> Inl e | Inr p \<Rightarrow>
                 set3 y iy jy channel (np_sum3 p)))) y1 = Inr y2"
    show "shape3 y2 = (nat ?ym, nat ?yn, no)"
      by (rule for_each_preserves [where P = "\<lambda>y. shape3 y = (nat ?ym, nat ?yn, no)", OF b s])
        (auto split: sum.splits dest: set3_shape)
  qed
  then show ?thesis by blast
qed

lemma v2_loops_shape:
  assumes "for_each rows (\<lambda>(iy, ix).
             for_each cols (\<lambda>(jy, jx) y.
               for_each chans (\<lambda>channel y.
                 (case filters_chan filters channel of Inl e \<Rightarrow> Inl e | Inr f \<Rightarrow>
                   (case mul34 f (chunk ix jx) of Inl e \<Rightarrow> Inl e | Inr p \<Rightarrow>
                      set4_col y iy jy channel (np_sum_axes123 p)))) y)) y0 = Inr y"
  shows "shape4 y = shape4 y0"
proof (rule window_loops_keep [OF assms, where P = "\<lambda>y. shape4 y = shape4 y0"])
  show "shape4 y0 = shape4 y0" ..
next
  fix iy ix jy jx and y1 y2 :: "'a arr4"
  assume s: "shape4 y1 = shape4 y0"
    and b: "for_each chans (\<lambda>channel y.
                 (case filters_chan filters channel of Inl e \<Rightarrow> Inl e | Inr f \<Rightarrow>
                   (case mul34 f (chunk ix jx) of Inl e \<Rightarrow> Inl e | Inr p \<Rightarrow>
                      set4_col y iy jy channel (np_sum_axes123 p)))) y1 = Inr y2"
  show "shape4 y2 = shape4 y0"
    by (rule for_each_preserves [where P = "\<lambda>y. shape4 y = shape4 y0", OF b s])
      (auto split: sum.splits dest: set4_col_shape)
qed

lemma v3_loops_shape:
  assumes "for_each rows (\<lambda>(iy, ix).
             for_each cols (\<lambda>(jy, jx) y.
               for_each chans (\<lambda>output_chan.
                 for_each items (\<lambda>item y.
                   (case tmp_loop ix jx output_chan item of
                     Inl e \<Rightarrow> Inl e
                   | Inr tmp \<Rightarrow> set4 y item iy jy output_chan tmp))) y)) y0 = Inr y"
  shows "shape4 y = shape4 y0"
proof (rule window_loops_keep [OF assms, where P = "\<lambda>y. shape4 y = shape4 y0"])
  show "shape4 y0 = shape4 y0" ..
next
  fix iy ix jy jx and y1 y2 :: "'a arr4"
  assume s: "shape4 y1 = shape4 y0"
    and b: "for_each chans (\<lambda>output_chan.
                 for_each items (\<lambda>item y.
                   (case tmp_loop ix jx output_chan item of
                     Inl e \<Rightarrow> Inl e
                   | Inr tmp \<Rightarrow> set4 y item iy jy output_chan tmp))) y1 = Inr y2"
  show "shape4 y2 = shape4 y0"
  proof (rule for_each_preserves [where P = "\<lambda>y. shape4 y = shape4 y0", OF b s])
    fix oc and t t' :: "'a arr4"
    assume t: "shape4 t = shape4 y0"
      and c: "for_each items (\<lambda>item y.
                   (case tmp_loop ix jx oc item of
                     Inl e \<Rightarrow> Inl e
                   | Inr tmp \<Rightarrow> set4 y item iy jy oc tmp)) t = Inr t'"
    show "shape4 t' = shape4 y0"
      by (rule for_each_preserves [where P = "\<lambda>y. shape4 y = shape4 y0", OF c t])
        (auto split: sum.splits dest: set4_shape)
  qed
qed

lemma iadd_biases_mismatch:
  "shape4 y = (n, a, b, c) \<Longrightarrow> length biases \<noteq> c \<Longrightarrow> length biases \<noteq> 1 \<Longrightarrow>
   iadd_biases y biases = Inl ValueError"
  by (simp add: iadd_biases_def)

lemma v2_bias_mismatch:
  assumes "shape4 filters = (kH, kW, Cin', Cout)" "length biases \<noteq> Cout" "length biases \<noteq> 1"
  shows "\<exists>e. filter_images_v2 g images filters biases strides = Inl e"
proof -
  obtain B xm xn ci where si: "shape4 images = (B, xm, xn, ci)" by (metis prod_cases4)
  obtain sm sn where st: "strides = (sm, sn)" by (cases strides)
  show ?thesis
    unfolding filter_images_v2_def si assms(1) st prod.case Let_def
    by (auto split: sum.splits dest!: v2_loops_shape
        simp: shape4_zeros iadd_biases_mismatch [OF _ assms(2,3)])
qed

lemma v3_bias_mismatch:
  assumes "shape4 filters = (kH, kW, Cin', Cout)" "length biases \<noteq> Cout" "length biases \<noteq> 1"
  shows "\<exists>e. filter_images_v3 g images filters biases strides = Inl e"
proof -
  obtain B xm xn ci where si: "shape4 images = (B, xm, xn, ci)" by (metis prod_cases4)
  obtain sm sn where st: "strides = (sm, sn)" by (cases strides)
  show ?thesis
    unfolding filter_images_v3_def si assms(1) st prod.case Let_def
    by (auto split: sum.splits dest!: v3_loops_shape
        simp: shape4_zeros iadd_biases_mismatch [OF _ assms(2,3)])
qed

lemma comprehension_Cons_Inr:
  "comprehension f (x # xs) = Inr ys \<Longrightarrow> \<exists>y ys'. ys = y # ys' \<and> f x = Inr y"
  by (auto split: sum.splits)

lemma np_array_Cons:
  "np_array (x # xs) = Inr r \<Longrightarrow> shape3 x = (a, b, c) \<Longrightarrow> \<exists>v. r = Rank4 (Arr4 (Suc (length xs), a, b, c) v)"
  by (auto split: if_splits)

lemma add_biases4_mismatch:
  "shape4 y = (n, a, b, c) \<Longrightarrow> length biases \<noteq> c \<Longrightarrow> length biases \<noteq> 1 \<Longrightarrow> c \<noteq> 1 \<Longrightarrow>
   add_biases4 y biases = Inl ValueError"
  by (simp add: add_biases4_def bdim_def)

lemma images_of_Cons:
  assumes "wf4 images" "shape4 images = (B, H, W, Cin)" "0 < B"
  shows "\<exists>x xs. images_of images = Arr3 (H, W, Cin) x # xs"
proof -
  obtain x xs where "vals4 images = x # xs"
    using wf4_nth [OF assms(1,2)] assms(3) by (cases "vals4 images") auto
  then show ?thesis by (simp add: images_of_def assms(2))
qed

lemma v1_bias_mismatch:
  assumes "shape4 images = (B, H, W, Cin)" "shape4 filters = (kH, kW, Cin', Cout)"
    and "length biases \<noteq> Cout" "length biases \<noteq> 1" "Cout \<noteq> 1" "wf4 images" "0 < B"
  shows "\<exists>e. filter_images_v1 g images filters biases strides = Inl e"
proof (cases "comprehension (\<lambda>img. filter_image g img filters strides) (images_of images)")
  case (Inl e)
  then show ?thesis by (simp add: filter_images_v1_def)
next
  case (Inr outs)
  obtain sm sn where st: "strides = (sm, sn)" by (cases strides)
  from images_of_Cons [OF assms(6,1,7)] obtain x xs
    where xs: "images_of images = Arr3 (H, W, Cin) x # xs" by blast
  from comprehension_Cons_Inr [OF Inr [unfolded xs]] obtain y ys
    where ys: "outs = y # ys" "filter_image g (Arr3 (H, W, Cin) x) filters strides = Inr y" by blast
  from filter_image_shape [OF ys(2) [unfolded st] _ assms(2)] obtain a b
    where sh: "shape3 y = (a, b, Cout)" by auto
  show ?thesis
  proof (cases "np_array outs")
    case (Inl e)
    with Inr show ?thesis by (simp add: filter_images_v1_def)
  next
    case r: (Inr r)
    from np_array_Cons [OF r [unfolded ys(1)] sh] obtain v
      where v: "r = Rank4 (Arr4 (Suc (length ys), a, b, Cout) v)" by blast
    have "add_biases4 (Arr4 (Suc (length ys), a, b, Cout) v) biases = Inl ValueError"
      by (rule add_biases4_mismatch [OF _ assms(3,4,5)]) simp
    then show ?thesis using Inr r v by (simp add: filter_images_v1_def)
  qed
qed

subsection \<open>Channel counts that do not broadcast\<close>

lemma filters_chan_shape:
  "shape4 f = (km, kn, ni, no) \<Longrightarrow> ch < no \<Longrightarrow> \<exists>v. filters_chan f ch = Inr (Arr3 (km, kn, ni) v)"
  by (simp add: filters_chan_def)

lemma slice4_first_shape:
  "shape4 x = (n, a, b, c) \<Longrightarrow> km \<le> a \<Longrightarrow> kn \<le> b \<Longrightarrow>
   shape4 (slice4 x 0 (0 + int km) 0 (0 + int kn)) = (n, km, kn, c)"
  using slice_len_first [of km a] slice_len_first [of kn b] by (simp add: slice4_def)

lemma slice3_first_shape:
  "shape3 x = (a, b, c) \<Longrightarrow> km \<le> a \<Longrightarrow> kn \<le> b \<Longrightarrow>
   shape3 (slice3 x 0 (0 + int km) 0 (0 + int kn)) = (km, kn, c)"
  using slice_len_first [of km a] slice_len_first [of kn b] by (simp add: slice3_def)

lemma mul34_mismatch:
  "shape3 a = (a1, a2, a3) \<Longrightarrow> shape4 x = (n, a1, a2, b3) \<Longrightarrow> bdim a3 b3 = None \<Longrightarrow>
   mul34 a x = Inl ValueError"
  by (simp add: mul34_def bdim_same)

lemma mul33_mismatch:
  "shape3 a = (a1, a2, a3) \<Longrightarrow> shape3 x = (a1, a2, b3) \<Longrightarrow> bdim a3 b3 = None \<Longrightarrow>
   mul33 a x = Inl ValueError"
  by (simp add: mul33_def bdim_same)

lemma v2_channel_mismatch:
  assumes si: "shape4 images = (B, H, W, Cin)" and sf: "shape4 filters = (kH, kW, Cin', Cout)"
    and ne: "Cin \<noteq> Cin'" "Cin \<noteq> 1" "Cin' \<noteq> 1"
    and geo: "1 \<le> sH" "1 \<le> sW" "kH \<le> H" "kW \<le> W" and co: "0 < Cout"
  shows "filter_images_v2 g images filters biases (sH, sW) = Inl ValueError"
proof -
  obtain rows where rows: "enumerate 0 (py_range 0 (int H - int kH + 1) sH) = (0, 0) # rows"
    using enumerate_range_first [OF geo(1,3)] by blast
  obtain cols where cols: "enumerate 0 (py_range 0 (int W - int kW + 1) sW) = (0, 0) # cols"
    using enumerate_range_first [OF geo(2,4)] by blast
  obtain v where v: "filters_chan filters 0 = Inr (Arr3 (kH, kW, Cin') v)"
    using filters_chan_shape [OF sf co] by blast
  have m: "mul34 (Arr3 (kH, kW, Cin') v) (slice4 images 0 (0 + int kH) 0 (0 + int kW)) = Inl ValueError"
    by (rule mul34_mismatch [OF _ slice4_first_shape [OF si geo(3,4)] bdim_None [OF ne(1) [symmetric] ne(3,2)]]) simp
  have nn: "0 \<le> 1 + (int H - int kH) div sH" "0 \<le> 1 + (int W - int kW) div sW"
    using geo by (simp_all add: pos_imp_zdiv_nonneg_iff add_nonneg_nonneg)
  show ?thesis
    unfolding filter_images_v2_def si sf prod.case Let_def rows cols upt_first [OF co] for_each.simps v m sum.case
    using geo(1,2) nn by simp
qed

lemma filter_image_channel_mismatch:
  assumes si: "shape3 img = (H, W, Cin)" and sf: "shape4 filters = (kH, kW, Cin', Cout)"
    and ne: "Cin \<noteq> Cin'" "Cin \<noteq> 1" "Cin' \<noteq> 1"
    and geo: "1 \<le> sH" "1 \<le> sW" "kH \<le> H" "kW \<le> W" and co: "0 < Cout"
  shows "filter_image g img filters (sH, sW) = Inl ValueError"
proof -
  obtain rows where rows: "enumerate 0 (py_range 0 (int H - int kH + 1) sH) = (0, 0) # rows"
    using enumerate_range_first [OF geo(1,3)] by blast
  obtain cols where cols: "enumerate 0 (py_range 0 (int W - int kW + 1) sW) = (0, 0) # cols"
    using enumerate_range_first [OF geo(2,4)] by blast
  obtain v where v: "filters_chan filters 0 = Inr (Arr3 (kH, kW, Cin') v)"
    using filters_chan_shape [OF sf co] by blast
  have m: "mul33 (Arr3 (kH, kW, Cin') v) (slice3 img 0 (0 + int kH) 0 (0 + int kW)) = Inl ValueError"
    by (rule mul33_mismatch [OF _ slice3_first_shape [OF si geo(3,4)] bdim_None [OF ne(1) [symmetric] ne(3,2)]]) simp
  have nn: "0 \<le> 1 + (int H - int kH) div sH" "0 \<le> 1 + (int W - int kW) div sW"
    using geo by (simp_all add: pos_imp_zdiv_nonneg_iff add_nonneg_nonneg)
  show ?thesis
    unfolding filter_image_def si sf prod.case Let_def rows cols upt_first [OF co] for_each.simps v m sum.case
    using geo(1,2) nn by simp
qed

lemma v1_channel_mismatch:
  assumes si: "shape4 images = (B, H, W, Cin)" and sf: "shape4 filters = (kH, kW, Cin', Cout)"
    and ne: "Cin \<noteq> Cin'" "Cin \<noteq> 1" "Cin' \<noteq> 1"
    and geo: "1 \<le> sH" "1 \<le> sW" "kH \<le> H" "kW \<le> W" and co: "0 < Cout"
    and w: "wf4 images" "0 < B"
  shows "filter_images_v1 g images filters biases (sH, sW) = Inl ValueError"
proof -
  from images_of_Cons [OF w(1) si w(2)] obtain x xs
    where xs: "images_of images = Arr3 (H, W, Cin) x # xs" by blast
  have "filter_image g (Arr3 (H, W, Cin) x) filters (sH, sW) = Inl ValueError"
    by (rule filter_image_channel_mismatch [OF _ sf ne geo co]) simp
  then show ?thesis by (simp add: filter_images_v1_def xs)
qed

lemma get4_inside:
  "shape4 x = (n, a, b, c) \<Longrightarrow> m < n \<Longrightarrow> i < a \<Longrightarrow> j < b \<Longrightarrow> k < c \<Longrightarrow>
   get4 x m i j k = Inr (at4 x m i j k)"
  by (simp add: get4_def)

lemma get4_outside:
  "shape4 x = (n, a, b, c) \<Longrightarrow> \<not> k < c \<Longrightarrow> get4 x m i j k = Inl IndexError"
  by (simp add: get4_def)

lemma v3_too_few_channels:
  assumes si: "shape4 images = (B, H, W, Cin)" and sf: "shape4 filters = (kH, kW, Cin', Cout)"
    and lt: "Cin < Cin'"
    and geo: "1 \<le> sH" "1 \<le> sW" "kH \<le> H" "kW \<le> W" and co: "0 < Cout"
    and pos: "0 < B" "0 < kH" "0 < kW"
  shows "filter_images_v3 g images filters biases (sH, sW) = Inl IndexError"
proof -
  obtain rows where rows: "enumerate 0 (py_range 0 (int H - int kH + 1) sH) = (0, 0) # rows"
    using enumerate_range_first [OF geo(1,3)] by blast
  obtain cols where cols: "enumerate 0 (py_range 0 (int W - int kW + 1) sW) = (0, 0) # cols"
    using enumerate_range_first [OF geo(2,4)] by blast
  let ?chunk = "slice4 images 0 (0 + int kH) 0 (0 + int kW)"
  note sc = slice4_first_shape [OF si geo(3,4)]
  have inner: "for_each [0..<Cin'] (\<lambda>input_chan tmp.
          (case get4 ?chunk 0 0 0 input_chan of Inl e \<Rightarrow> Inl e | Inr c \<Rightarrow>
            (case get4 filters 0 0 input_chan 0 of Inl e \<Rightarrow> Inl e | Inr f \<Rightarrow>
               Inr (tmp + c * f)))) t = Inl IndexError" for t :: 'a
  proof (rule for_each_fails_at [where n = Cin])
    show "Cin < length [0..<Cin']" using lt by simp
  next
    fix m and s :: 'a assume "m < Cin"
    then have "[0..<Cin'] ! m = m" using lt by simp
    moreover have "get4 ?chunk 0 0 0 m = Inr (at4 ?chunk 0 0 0 m)"
      by (rule get4_inside [OF sc pos \<open>m < Cin\<close>])
    moreover have "get4 filters 0 0 m 0 = Inr (at4 filters 0 0 m 0)"
      by (rule get4_inside [OF sf pos(2,3) _ co]) (use \<open>m < Cin\<close> lt in simp)
    ultimately show "\<exists>s'. (case get4 ?chunk 0 0 0 ([0..<Cin'] ! m) of Inl e \<Rightarrow> Inl e | Inr c \<Rightarrow>
            (case get4 filters 0 0 ([0..<Cin'] ! m) 0 of Inl e \<Rightarrow> Inl e | Inr f \<Rightarrow>
               Inr (s + c * f))) = Inr s'" by simp
  next
    fix s :: 'a
    have "[0..<Cin'] ! Cin = Cin" using lt by simp
    moreover have "get4 ?chunk 0 0 0 Cin = Inl IndexError"
      by (rule get4_outside [OF sc]) simp
    ultimately show "(case get4 ?chunk 0 0 0 ([0..<Cin'] ! Cin) of Inl e \<Rightarrow> Inl e | Inr c \<Rightarrow>
            (case get4 filters 0 0 ([0..<Cin'] ! Cin) 0 of Inl e \<Rightarrow> Inl e | Inr f \<Rightarrow>
               Inr (s + c * f))) = Inl IndexError" by simp
  qed
  have nn: "0 \<le> 1 + (int H - int kH) div sH" "0 \<le> 1 + (int W - int kW) div sW"
    using geo by (simp_all add: pos_imp_zdiv_nonneg_iff add_nonneg_nonneg)
  show ?thesis
    unfolding filter_images_v3_def si sf prod.case Let_def rows cols
      upt_first [OF co] upt_first [OF pos(1)] upt_first [OF pos(2)] upt_first [OF pos(3)]
      for_each.simps inner sum.case
    using geo(1,2) nn by simp
qed

section \<open>The variants on valid input\<close>

text \<open>
  What the three variants return on a valid input, as far as the model goes: its
  elements form a commutative ring, so the values below are those of exact arithmetic
  (the float64 values of the program differ from them by rounding); the shapes and
  the absence of errors do not depend on the arithmetic. \<open>filter_images_v1\<close> is
  covered for non-empty batches only.
\<close>

text \<open>
  Each variant returns the output of the contract:
  \<open>output[n,i,j,c] = bias[c] + \<Sum> image[n, i\<cdot>sH+dh, j\<cdot>sW+dw, ci] \<cdot> filter[dh,dw,ci,c]\<close>,
  the sum over \<open>dh < kH\<close>, \<open>dw < kW\<close>, \<open>ci < Cin\<close>.
\<close>

lemma variants_meet_contract:
  assumes "valid_input images filters biases (sH, sW)"
    and "shape4 images = (B, H, W, Cin)" and "shape4 filters = (kH, kW, Cin, Cout)"
  shows "\<exists>y. filter_images_v2 g images filters biases (sH, sW) = Inr y \<and>
             filter_images_v3 g images filters biases (sH, sW) = Inr y \<and>
             (0 < B \<longrightarrow> filter_images_v1 g images filters biases (sH, sW) = Inr (Rank4 y)) \<and>
             (\<forall>n<B. \<forall>i<nat (1 + (int H - int kH) div sH). \<forall>j<nat (1 + (int W - int kW) div sW). \<forall>c<Cout.
                at4 y n i j c = biases ! c + (\<Sum>dh<kH. \<Sum>dw<kW. \<Sum>ci<Cin.
                  at4 images n (i * nat sH + dh) (j * nat sW + dw) ci * at4 filters dh dw ci c))"
proof (intro exI conjI allI impI)
  show "filter_images_v2 g images filters biases (sH, sW) = Inr (contract_output images filters biases (sH, sW))"
    by (rule v2_correct [OF assms(1)])
  show "filter_images_v3 g images filters biases (sH, sW) = Inr (contract_output images filters biases (sH, sW))"
    by (rule v3_correct [OF assms(1)])
  show "filter_images_v1 g images filters biases (sH, sW) = Inr (Rank4 (contract_output images filters biases (sH, sW)))"
    if "0 < B" by (rule v1_correct [OF assms(1,2) that])
  show "at4 (contract_output images filters biases (sH, sW)) n i j c =
          biases ! c + (\<Sum>dh<kH. \<Sum>dw<kW. \<Sum>ci<Cin.
            at4 images n (i * nat sH + dh) (j * nat sW + dw) ci * at4 filters dh dw ci c)"
    if "n < B" "i < nat (1 + (int H - int kH) div sH)" "j < nat (1 + (int W - int kW) div sW)" "c < Cout"
    for n i j c
    by (rule contract_output_at [OF assms(2,3) that])
qed

lemma variants_meet_contract_witness:
  "\<exists>y. filter_images_v2 \<lparr>amb_filters = None, amb_biases = None, amb_strides = None\<rparr>
          (Arr4 (1, 3, 3, 1) [[[[1], [2], [3]], [[4], [5], [6]], [[7], [8], [9]]]])
          (Arr4 (2, 2, 1, 2) [[[[1, 0]], [[0, 1]]], [[[0, 2]], [[1, 0::int]]]]) [10, 20] (1, 1) = Inr y \<and>
       filter_images_v3 \<lparr>amb_filters = None, amb_biases = None, amb_strides = None\<rparr>
          (Arr4 (1, 3, 3, 1) [[[[1], [2], [3]], [[4], [5], [6]], [[7], [8], [9]]]])
          (Arr4 (2, 2, 1, 2) [[[[1, 0]], [[0, 1]]], [[[0, 2]], [[1, 0::int]]]]) [10, 20] (1, 1) = Inr y \<and>
       filter_images_v1 \<lparr>amb_filters = None, amb_biases = None, amb_strides = None\<rparr>
          (Arr4 (1, 3, 3, 1) [[[[1], [2], [3]], [[4], [5], [6]], [[7], [8], [9]]]])
          (Arr4 (2, 2, 1, 2) [[[[1, 0]], [[0, 1]]], [[[0, 2]], [[1, 0::int]]]]) [10, 20] (1, 1) = Inr (Rank4 y) \<and>
       at4 y 0 1 1 1 = 42"
proof -
  let ?g = "\<lparr>amb_filters = None, amb_biases = None, amb_strides = None\<rparr> :: int ambient"
  let ?X = "Arr4 (1, 3, 3, 1) [[[[1], [2], [3]], [[4], [5], [6]], [[7], [8], [9::int]]]]"
  let ?F = "Arr4 (2, 2, 1, 2) [[[[1, 0]], [[0, 1]]], [[[0, 2]], [[1, 0::int]]]]"
  have v: "valid_input ?X ?F [10, 20] (1, 1)"
    by (simp add: valid_input_def wf4_def)
  have s: "shape4 ?X = (1, 3, 3, 1)" "shape4 ?F = (2, 2, 1, 2)" by simp_all
  from variants_meet_contract [OF v s, of ?g]
  obtain y where y: "filter_images_v2 ?g ?X ?F [10, 20] (1, 1) = Inr y"
      "filter_images_v3 ?g ?X ?F [10, 20] (1, 1) = Inr y"
      "0 < (1::nat) \<longrightarrow> filter_images_v1 ?g ?X ?F [10, 20] (1, 1) = Inr (Rank4 y)"
      "\<forall>n<1. \<forall>i<nat (1 + (int 3 - int 2) div 1). \<forall>j<nat (1 + (int 3 - int 2) div 1). \<forall>c<2.
         at4 y n i j c = [10, 20] ! c + (\<Sum>dh<2. \<Sum>dw<2. \<Sum>ci<1.
           at4 ?X n (i * nat 1 + dh) (j * nat 1 + dw) ci * at4 ?F dh dw ci c)"
    by (elim exE conjE) (rule that)
  have "at4 y 0 1 1 1 = 42"
    using y(4) [rule_format, of 0 1 1 1] by (simp add: at4_def lessThan_Suc numeral_2_eq_2)
  with y(1,2,3) show ?thesis by simp
qed


text \<open>The three variants return the same array.\<close>

lemma variants_agree:
  assumes "valid_input images filters biases strides" and "shape4 images = (B, H, W, Cin)"
  shows "filter_images_v3 g images filters biases strides = filter_images_v2 g images filters biases strides \<and>
         (\<exists>y. filter_images_v2 g images filters biases strides = Inr y \<and>
              (0 < B \<longrightarrow> filter_images_v1 g images filters biases strides = Inr (Rank4 y)))"
  using v1_correct [OF assms] v2_correct [OF assms(1)] v3_correct [OF assms(1)] by simp

lemma variants_agree_witness:
  "filter_images_v3 \<lparr>amb_filters = None, amb_biases = None, amb_strides = None\<rparr>
      (Arr4 (2, 1, 2, 1) [[[[1], [2]]], [[[3], [4::int]]]]) (Arr4 (1, 1, 1, 1) [[[[5]]]]) [7] (1, 1)
   = filter_images_v2 \<lparr>amb_filters = None, amb_biases = None, amb_strides = None\<rparr>
      (Arr4 (2, 1, 2, 1) [[[[1], [2]]], [[[3], [4::int]]]]) (Arr4 (1, 1, 1, 1) [[[[5]]]]) [7] (1, 1) \<and>
   (\<exists>y. filter_images_v2 \<lparr>amb_filters = None, amb_biases = None, amb_strides = None\<rparr>
      (Arr4 (2, 1, 2, 1) [[[[1], [2]]], [[[3], [4::int]]]]) (Arr4 (1, 1, 1, 1) [[[[5]]]]) [7] (1, 1) = Inr y \<and>
     filter_images_v1 \<lparr>amb_filters = None, amb_biases = None, amb_strides = None\<rparr>
      (Arr4 (2, 1, 2, 1) [[[[1], [2]]], [[[3], [4::int]]]]) (Arr4 (1, 1, 1, 1) [[[[5]]]]) [7] (1, 1) = Inr (Rank4 y))"
proof -
  let ?g = "\<lparr>amb_filters = None, amb_biases = None, amb_strides = None\<rparr> :: int ambient"
  let ?X = "Arr4 (2, 1, 2, 1) [[[[1], [2]]], [[[3], [4::int]]]]"
  let ?F = "Arr4 (1, 1, 1, 1) [[[[5::int]]]]"
  have v: "valid_input ?X ?F [7] (1, 1)"
    by (simp add: valid_input_def wf4_def)
  have s: "shape4 ?X = (2, 1, 2, 1)" by simp
  from variants_agree [OF v s, of ?g] show ?thesis by simp
qed


text \<open>
  The returned array has the shape \<open>(B, 1 + (H-kH) div sH, 1 + (W-kW) div sW, Cout)\<close>;
  for shapes \<open>(2, 28, 28, 3)\<close> and \<open>(4, 4, 3, 4)\<close> and strides \<open>(1, 1)\<close> that is
  \<open>(2, 25, 25, 4)\<close>.
\<close>

lemma output_shape:
  assumes "valid_input images filters biases (sH, sW)"
    and "shape4 images = (B, H, W, Cin)" and "shape4 filters = (kH, kW, Cin, Cout)"
  shows "(\<exists>y. filter_images_v2 g images filters biases (sH, sW) = Inr y \<and> wf4 y \<and>
              shape4 y = (B, nat (1 + (int H - int kH) div sH), nat (1 + (int W - int kW) div sW), Cout)) \<and>
         (\<exists>y. filter_images_v3 g images filters biases (sH, sW) = Inr y \<and> wf4 y \<and>
              shape4 y = (B, nat (1 + (int H - int kH) div sH), nat (1 + (int W - int kW) div sW), Cout)) \<and>
         (0 < B \<longrightarrow>
           (\<exists>y. filter_images_v1 g images filters biases (sH, sW) = Inr (Rank4 y) \<and> wf4 y \<and>
              shape4 y = (B, nat (1 + (int H - int kH) div sH), nat (1 + (int W - int kW) div sW), Cout)))"
  using v1_correct [OF assms(1,2)] v2_correct [OF assms(1)] v3_correct [OF assms(1)]
    contract_output_wf [of images filters biases "(sH, sW)"]
    contract_output_shape [OF assms(2,3), of biases sH sW]
  by simp

lemma output_shape_witness:
  "(\<exists>y. filter_images_v2 \<lparr>amb_filters = None, amb_biases = None, amb_strides = None\<rparr>
          (np_zeros4 (2, 28, 28, 3)) (np_zeros4 (4, 4, 3, 4)) [1, 2, 3, 4::int] (1, 1) = Inr y \<and>
        shape4 y = (2, 25, 25, 4)) \<and>
   (\<exists>y. filter_images_v3 \<lparr>amb_filters = None, amb_biases = None, amb_strides = None\<rparr>
          (np_zeros4 (2, 28, 28, 3)) (np_zeros4 (4, 4, 3, 4)) [1, 2, 3, 4::int] (1, 1) = Inr y \<and>
        shape4 y = (2, 25, 25, 4)) \<and>
   (\<exists>y. filter_images_v1 \<lparr>amb_filters = None, amb_biases = None, amb_strides = None\<rparr>
          (np_zeros4 (2, 28, 28, 3)) (np_zeros4 (4, 4, 3, 4)) [1, 2, 3, 4::int] (1, 1) = Inr (Rank4 y) \<and>
        shape4 y = (2, 25, 25, 4))"
proof -
  let ?g = "\<lparr>amb_filters = None, amb_biases = None, amb_strides = None\<rparr> :: int ambient"
  have v: "valid_input (np_zeros4 (2, 28, 28, 3) :: int arr4) (np_zeros4 (4, 4, 3, 4)) [1, 2, 3, 4] (1, 1)"
    by (simp add: valid_input_def wf4_zeros shape4_zeros)
  have s: "shape4 (np_zeros4 (2, 28, 28, 3) :: int arr4) = (2, 28, 28, 3)"
    "shape4 (np_zeros4 (4, 4, 3, 4) :: int arr4) = (4, 4, 3, 4)"
    by (simp_all add: shape4_zeros)
  have e: "nat (1 + (int 28 - int 4) div 1) = 25" by simp
  from output_shape [OF v s, of ?g] show ?thesis
    unfolding e by auto
qed


section \<open>The claims\<close>

text \<open>
  C1. For every valid input each of \<open>filter_images_v1\<close>, \<open>filter_images_v2\<close> and
  \<open>filter_images_v3\<close> returns an output batch with
  \<open>output[n,i,j,c] = bias[c] + \<Sum> image[n, i\<cdot>sH+dh, j\<cdot>sW+dw, ci] \<cdot> filter[dh,dw,ci,c]\<close>.
  The code breaks this on the empty batch: the input below is valid,
  \<open>filter_images_v2\<close> and \<open>filter_images_v3\<close> return the output of the contract
  (shape \<open>(0, 2, 2, 2)\<close>, no elements), and \<open>filter_images_v1\<close> raises, because
  \<open>np.array\<close> of the empty list has shape \<open>(0,)\<close> and not the rank 4 that the
  notebook's text says it has, and that shape does not broadcast with two biases.
\<close>

theorem v1_empty_batch_raises:
  "valid_input (Arr4 (0, 3, 3, 1) []) (Arr4 (2, 2, 1, 2) [[[[1, 0]], [[0, 1]]], [[[0, 2]], [[1, 0::int]]]]) [10, 20] (1, 1) \<and>
   filter_images_v1 \<lparr>amb_filters = None, amb_biases = None, amb_strides = None\<rparr>
     (Arr4 (0, 3, 3, 1) []) (Arr4 (2, 2, 1, 2) [[[[1, 0]], [[0, 1]]], [[[0, 2]], [[1, 0::int]]]])
     [10, 20] (1, 1) = Inl ValueError \<and>
   filter_images_v2 \<lparr>amb_filters = None, amb_biases = None, amb_strides = None\<rparr>
     (Arr4 (0, 3, 3, 1) []) (Arr4 (2, 2, 1, 2) [[[[1, 0]], [[0, 1]]], [[[0, 2]], [[1, 0::int]]]])
     [10, 20] (1, 1) = Inr (Arr4 (0, 2, 2, 2) []) \<and>
   filter_images_v3 \<lparr>amb_filters = None, amb_biases = None, amb_strides = None\<rparr>
     (Arr4 (0, 3, 3, 1) []) (Arr4 (2, 2, 1, 2) [[[[1, 0]], [[0, 1]]], [[[0, 2]], [[1, 0::int]]]])
     [10, 20] (1, 1) = Inr (Arr4 (0, 2, 2, 2) [])"
  by code_simp

text \<open>
  C2. For every valid input the three variants produce results equal to each other.
  The code breaks this on the empty batch, by the same defect of
  \<open>filter_images_v1\<close>: on the valid input below it raises where
  \<open>filter_images_v2\<close> and \<open>filter_images_v3\<close> return the empty array of shape
  \<open>(0, 2, 2, 2)\<close>.
\<close>

theorem v1_differs_on_empty_batch:
  "valid_input (Arr4 (0, 2, 2, 1) []) (Arr4 (1, 1, 1, 2) [[[[3, 4::int]]]]) [5, 6] (1, 1) \<and>
   filter_images_v1 \<lparr>amb_filters = None, amb_biases = None, amb_strides = None\<rparr>
     (Arr4 (0, 2, 2, 1) []) (Arr4 (1, 1, 1, 2) [[[[3, 4::int]]]]) [5, 6] (1, 1) = Inl ValueError \<and>
   filter_images_v2 \<lparr>amb_filters = None, amb_biases = None, amb_strides = None\<rparr>
     (Arr4 (0, 2, 2, 1) []) (Arr4 (1, 1, 1, 2) [[[[3, 4::int]]]]) [5, 6] (1, 1) = Inr (Arr4 (0, 2, 2, 2) []) \<and>
   filter_images_v3 \<lparr>amb_filters = None, amb_biases = None, amb_strides = None\<rparr>
     (Arr4 (0, 2, 2, 1) []) (Arr4 (1, 1, 1, 2) [[[[3, 4::int]]]]) [5, 6] (1, 1) = Inr (Arr4 (0, 2, 2, 2) [])"
  by code_simp

text \<open>
  C3. For every valid input the output batch returned by each variant has spatial
  size \<open>(1 + (H-kH) div sH, 1 + (W-kW) div sW)\<close> and \<open>Cout\<close> channels. The code breaks
  this on the empty batch, by the same defect of \<open>filter_images_v1\<close>: with one
  output channel it returns the rank-1 array of shape \<open>(0,)\<close>, which has no spatial
  axes, where \<open>filter_images_v2\<close> and \<open>filter_images_v3\<close> return the shape
  \<open>(0, 2, 2, 1)\<close> of the shape law.
\<close>

theorem v1_empty_batch_rank1:
  "valid_input (Arr4 (0, 3, 3, 1) []) (Arr4 (2, 2, 1, 1) [[[[1]], [[0]]], [[[0]], [[1::int]]]]) [10] (1, 1) \<and>
   filter_images_v1 \<lparr>amb_filters = None, amb_biases = None, amb_strides = None\<rparr>
     (Arr4 (0, 3, 3, 1) []) (Arr4 (2, 2, 1, 1) [[[[1]], [[0]]], [[[0]], [[1::int]]]]) [10] (1, 1)
   = Inr (Rank1 []) \<and>
   filter_images_v2 \<lparr>amb_filters = None, amb_biases = None, amb_strides = None\<rparr>
     (Arr4 (0, 3, 3, 1) []) (Arr4 (2, 2, 1, 1) [[[[1]], [[0]]], [[[0]], [[1::int]]]]) [10] (1, 1)
   = Inr (Arr4 (0, 2, 2, 1) []) \<and>
   filter_images_v3 \<lparr>amb_filters = None, amb_biases = None, amb_strides = None\<rparr>
     (Arr4 (0, 3, 3, 1) []) (Arr4 (2, 2, 1, 1) [[[[1]], [[0]]], [[[0]], [[1::int]]]]) [10] (1, 1)
   = Inr (Arr4 (0, 2, 2, 1) [])"
  by code_simp

text \<open>
  C4 (as amended). If the bias vector's length is neither \<open>Cout\<close> nor 1, then
  \<open>filter_images_v2\<close> and \<open>filter_images_v3\<close> raise instead of returning, and so
  does \<open>filter_images_v1\<close> when \<open>Cout \<noteq> 1\<close> and the batch is not empty. If the
  input-channel counts of the image batch and the filter bank differ, the strides are
  positive, the filter fits into the image and \<open>Cout \<ge> 1\<close>, then: when neither count
  is 1, \<open>filter_images_v2\<close> raises \<open>ValueError\<close> and so does \<open>filter_images_v1\<close>
  on a non-empty batch; and when the image batch has fewer channels than the filter
  bank, \<open>filter_images_v3\<close> raises \<open>IndexError\<close> (non-empty batch, \<open>kH, kW \<ge> 1\<close>).
\<close>

theorem shape_mismatch_raises:
  assumes "shape4 images = (B, H, W, Cin)" and "shape4 filters = (kH, kW, Cin', Cout)"
  shows "(length biases \<noteq> Cout \<and> length biases \<noteq> 1 \<longrightarrow>
            (\<exists>e. filter_images_v2 g images filters biases (sH, sW) = Inl e) \<and>
            (\<exists>e. filter_images_v3 g images filters biases (sH, sW) = Inl e) \<and>
            (Cout \<noteq> 1 \<and> wf4 images \<and> 0 < B \<longrightarrow>
               (\<exists>e. filter_images_v1 g images filters biases (sH, sW) = Inl e))) \<and>
         (Cin \<noteq> Cin' \<and> 1 \<le> sH \<and> 1 \<le> sW \<and> kH \<le> H \<and> kW \<le> W \<and> 0 < Cout \<longrightarrow>
            (Cin \<noteq> 1 \<and> Cin' \<noteq> 1 \<longrightarrow>
               filter_images_v2 g images filters biases (sH, sW) = Inl ValueError \<and>
               (wf4 images \<and> 0 < B \<longrightarrow>
                  filter_images_v1 g images filters biases (sH, sW) = Inl ValueError)) \<and>
            (Cin < Cin' \<and> 0 < B \<and> 0 < kH \<and> 0 < kW \<longrightarrow>
               filter_images_v3 g images filters biases (sH, sW) = Inl IndexError))"
proof (intro conjI impI; (elim conjE)?)
  assume b: "length biases \<noteq> Cout" "length biases \<noteq> 1"
  show "\<exists>e. filter_images_v2 g images filters biases (sH, sW) = Inl e"
    by (rule v2_bias_mismatch [OF assms(2) b])
  show "\<exists>e. filter_images_v3 g images filters biases (sH, sW) = Inl e"
    by (rule v3_bias_mismatch [OF assms(2) b])
  show "\<exists>e. filter_images_v1 g images filters biases (sH, sW) = Inl e"
    if "Cout \<noteq> 1" "wf4 images" "0 < B"
    by (rule v1_bias_mismatch [OF assms b that])
next
  assume c: "Cin \<noteq> Cin'" "1 \<le> sH" "1 \<le> sW" "kH \<le> H" "kW \<le> W" "0 < Cout"
  show "filter_images_v2 g images filters biases (sH, sW) = Inl ValueError"
    if "Cin \<noteq> 1" "Cin' \<noteq> 1"
    by (rule v2_channel_mismatch [OF assms c(1) that c(2-6)])
  show "filter_images_v1 g images filters biases (sH, sW) = Inl ValueError"
    if "Cin \<noteq> 1" "Cin' \<noteq> 1" "wf4 images" "0 < B"
    by (rule v1_channel_mismatch [OF assms c(1) that(1,2) c(2-6) that(3,4)])
  show "filter_images_v3 g images filters biases (sH, sW) = Inl IndexError"
    if "Cin < Cin'" "0 < B" "0 < kH" "0 < kW"
    by (rule v3_too_few_channels [OF assms that(1) c(2-6) that(2-4)])
qed

theorem shape_mismatch_raises_witness:
  "filter_images_v2 \<lparr>amb_filters = None, amb_biases = None, amb_strides = None\<rparr>
      (Arr4 (1, 1, 1, 2) [[[[1, 2]]]]) (Arr4 (1, 1, 3, 2) [[[[1, 1], [1, 1], [1, 1::int]]]]) [1, 2] (1, 1)
     = Inl ValueError \<and>
   filter_images_v1 \<lparr>amb_filters = None, amb_biases = None, amb_strides = None\<rparr>
      (Arr4 (1, 1, 1, 2) [[[[1, 2]]]]) (Arr4 (1, 1, 3, 2) [[[[1, 1], [1, 1], [1, 1::int]]]]) [1, 2] (1, 1)
     = Inl ValueError \<and>
   filter_images_v3 \<lparr>amb_filters = None, amb_biases = None, amb_strides = None\<rparr>
      (Arr4 (1, 1, 1, 2) [[[[1, 2]]]]) (Arr4 (1, 1, 3, 2) [[[[1, 1], [1, 1], [1, 1::int]]]]) [1, 2] (1, 1)
     = Inl IndexError \<and>
   (\<exists>e. filter_images_v2 \<lparr>amb_filters = None, amb_biases = None, amb_strides = None\<rparr>
      (Arr4 (1, 1, 1, 1) [[[[3]]]]) (Arr4 (1, 1, 1, 2) [[[[5, 6::int]]]]) [1, 2, 3] (1, 1) = Inl e) \<and>
   (\<exists>e. filter_images_v3 \<lparr>amb_filters = None, amb_biases = None, amb_strides = None\<rparr>
      (Arr4 (1, 1, 1, 1) [[[[3]]]]) (Arr4 (1, 1, 1, 2) [[[[5, 6::int]]]]) [1, 2, 3] (1, 1) = Inl e) \<and>
   (\<exists>e. filter_images_v1 \<lparr>amb_filters = None, amb_biases = None, amb_strides = None\<rparr>
      (Arr4 (1, 1, 1, 1) [[[[3]]]]) (Arr4 (1, 1, 1, 2) [[[[5, 6::int]]]]) [1, 2, 3] (1, 1) = Inl e)"
proof -
  let ?g = "\<lparr>amb_filters = None, amb_biases = None, amb_strides = None\<rparr> :: int ambient"
  have s: "shape4 (Arr4 (1, 1, 1, 2) [[[[1, 2::int]]]]) = (1, 1, 1, 2)"
    "shape4 (Arr4 (1, 1, 3, 2) [[[[1, 1], [1, 1], [1, 1::int]]]]) = (1, 1, 3, 2)" by simp_all
  have w: "wf4 (Arr4 (1, 1, 1, 2) [[[[1, 2::int]]]])" by (simp add: wf4_def)
  have s': "shape4 (Arr4 (1, 1, 1, 1) [[[[3::int]]]]) = (1, 1, 1, 1)"
    "shape4 (Arr4 (1, 1, 1, 2) [[[[5, 6::int]]]]) = (1, 1, 1, 2)" by simp_all
  have w': "wf4 (Arr4 (1, 1, 1, 1) [[[[3::int]]]])" by (simp add: wf4_def)
  from shape_mismatch_raises [OF s, of "[1, 2]" ?g 1 1] w
    shape_mismatch_raises [OF s', of "[1, 2, 3]" ?g 1 1] w'
  show ?thesis by simp
qed

text \<open>
  C4 as stated fails: with input-channel counts 1 and 2 the product broadcasts and
  \<open>filter_images_v1\<close>, \<open>filter_images_v2\<close> return; with 2 image channels and 1
  filter channel \<open>filter_images_v3\<close> returns, reading the first image channel only;
  and a single bias is broadcast over two output channels by all three variants.
\<close>

theorem shape_mismatch_returns:
  "filter_images_v1 \<lparr>amb_filters = None, amb_biases = None, amb_strides = None\<rparr>
      (Arr4 (1, 1, 1, 1) [[[[3]]]]) (Arr4 (1, 1, 2, 1) [[[[5], [6::int]]]]) [0] (1, 1)
     = Inr (Rank4 (Arr4 (1, 1, 1, 1) [[[[33]]]])) \<and>
   filter_images_v2 \<lparr>amb_filters = None, amb_biases = None, amb_strides = None\<rparr>
      (Arr4 (1, 1, 1, 1) [[[[3]]]]) (Arr4 (1, 1, 2, 1) [[[[5], [6::int]]]]) [0] (1, 1)
     = Inr (Arr4 (1, 1, 1, 1) [[[[33]]]]) \<and>
   filter_images_v3 \<lparr>amb_filters = None, amb_biases = None, amb_strides = None\<rparr>
      (Arr4 (1, 1, 1, 2) [[[[3, 4]]]]) (Arr4 (1, 1, 1, 1) [[[[5::int]]]]) [0] (1, 1)
     = Inr (Arr4 (1, 1, 1, 1) [[[[15]]]]) \<and>
   filter_images_v1 \<lparr>amb_filters = None, amb_biases = None, amb_strides = None\<rparr>
      (Arr4 (1, 1, 1, 1) [[[[3]]]]) (Arr4 (1, 1, 1, 2) [[[[5, 6::int]]]]) [10] (1, 1)
     = Inr (Rank4 (Arr4 (1, 1, 1, 2) [[[[25, 28]]]])) \<and>
   filter_images_v2 \<lparr>amb_filters = None, amb_biases = None, amb_strides = None\<rparr>
      (Arr4 (1, 1, 1, 1) [[[[3]]]]) (Arr4 (1, 1, 1, 2) [[[[5, 6::int]]]]) [10] (1, 1)
     = Inr (Arr4 (1, 1, 1, 2) [[[[25, 28]]]]) \<and>
   filter_images_v3 \<lparr>amb_filters = None, amb_biases = None, amb_strides = None\<rparr>
      (Arr4 (1, 1, 1, 1) [[[[3]]]]) (Arr4 (1, 1, 1, 2) [[[[5, 6::int]]]]) [10] (1, 1)
     = Inr (Arr4 (1, 1, 1, 2) [[[[25, 28]]]])"
  by code_simp

text \<open>
  C5 (as amended). With positive strides, when the output extent
  \<open>1 + (H-kH) div sH\<close> or \<open>1 + (W-kW) div sW\<close> is negative, \<open>filter_images_v2\<close>
  and \<open>filter_images_v3\<close> raise \<open>ValueError\<close>, and so does \<open>filter_images_v1\<close> on
  a non-empty batch.
\<close>

theorem negative_extent_raises:
  assumes "shape4 images = (B, H, W, Cin)" and "shape4 filters = (kH, kW, Cin', Cout)"
    and "1 \<le> sH" "1 \<le> sW"
    and "1 + (int H - int kH) div sH < 0 \<or> 1 + (int W - int kW) div sW < 0"
  shows "filter_images_v2 g images filters biases (sH, sW) = Inl ValueError \<and>
         filter_images_v3 g images filters biases (sH, sW) = Inl ValueError \<and>
         (wf4 images \<and> 0 < B \<longrightarrow> filter_images_v1 g images filters biases (sH, sW) = Inl ValueError)"
proof (intro conjI impI)
  show "filter_images_v2 g images filters biases (sH, sW) = Inl ValueError"
    using assms by (auto simp: filter_images_v2_def)
  show "filter_images_v3 g images filters biases (sH, sW) = Inl ValueError"
    using assms by (auto simp: filter_images_v3_def)
  assume w: "wf4 images \<and> 0 < B"
  then obtain x xs where xs: "vals4 images = x # xs"
    using wf4_nth [of images B H W Cin] assms(1) by (cases "vals4 images") auto
  have "filter_image g (Arr3 (H, W, Cin) x) filters (sH, sW) = Inl ValueError"
    using assms by (auto simp: filter_image_def)
  then show "filter_images_v1 g images filters biases (sH, sW) = Inl ValueError"
    by (simp add: filter_images_v1_def images_of_def assms(1) xs)
qed

theorem negative_extent_raises_witness:
  "filter_images_v2 \<lparr>amb_filters = None, amb_biases = None, amb_strides = None\<rparr>
      (Arr4 (1, 1, 1, 1) [[[[1]]]]) (Arr4 (3, 1, 1, 1) [[[[1]]], [[[1]]], [[[1::int]]]]) [0] (1, 1) = Inl ValueError \<and>
   filter_images_v3 \<lparr>amb_filters = None, amb_biases = None, amb_strides = None\<rparr>
      (Arr4 (1, 1, 1, 1) [[[[1]]]]) (Arr4 (3, 1, 1, 1) [[[[1]]], [[[1]]], [[[1::int]]]]) [0] (1, 1) = Inl ValueError \<and>
   filter_images_v1 \<lparr>amb_filters = None, amb_biases = None, amb_strides = None\<rparr>
      (Arr4 (1, 1, 1, 1) [[[[1]]]]) (Arr4 (3, 1, 1, 1) [[[[1]]], [[[1]]], [[[1::int]]]]) [0] (1, 1) = Inl ValueError"
proof -
  have s: "shape4 (Arr4 (1, 1, 1, 1) [[[[1::int]]]]) = (1, 1, 1, 1)"
    "shape4 (Arr4 (3, 1, 1, 1) [[[[1]]], [[[1]]], [[[1::int]]]]) = (3, 1, 1, 1)" by simp_all
  have p: "(1::int) \<le> 1" "(1::int) \<le> 1"
    "1 + (int 1 - int 3) div 1 < 0 \<or> 1 + (int 1 - int 1) div 1 < 0" by simp_all
  have w: "wf4 (Arr4 (1, 1, 1, 1) [[[[1::int]]]]) \<and> (0::nat) < 1" by (simp add: wf4_def)
  from negative_extent_raises [OF s p, of "\<lparr>amb_filters = None, amb_biases = None, amb_strides = None\<rparr>" "[0]"] w
  show ?thesis by blast
qed

text \<open>
  C5 as stated fails when the extent is exactly 0: with \<open>H = 3\<close>, \<open>kH = 4\<close> and
  stride 1 the filter exceeds the image, \<open>np.zeros\<close> accepts the dimension 0, the
  loops do not run, and every variant returns an array without elements.
\<close>

theorem zero_extent_returns:
  "filter_images_v1 \<lparr>amb_filters = None, amb_biases = None, amb_strides = None\<rparr>
      (Arr4 (1, 3, 3, 1) [[[[1], [2], [3]], [[4], [5], [6]], [[7], [8], [9]]]])
      (Arr4 (4, 2, 1, 1) [[[[1]], [[0]]], [[[1]], [[0]]], [[[1]], [[0]]], [[[1]], [[0::int]]]]) [10] (1, 1)
     = Inr (Rank4 (Arr4 (1, 0, 2, 1) [[]])) \<and>
   filter_images_v2 \<lparr>amb_filters = None, amb_biases = None, amb_strides = None\<rparr>
      (Arr4 (1, 3, 3, 1) [[[[1], [2], [3]], [[4], [5], [6]], [[7], [8], [9]]]])
      (Arr4 (4, 2, 1, 1) [[[[1]], [[0]]], [[[1]], [[0]]], [[[1]], [[0]]], [[[1]], [[0::int]]]]) [10] (1, 1)
     = Inr (Arr4 (1, 0, 2, 1) [[]]) \<and>
   filter_images_v3 \<lparr>amb_filters = None, amb_biases = None, amb_strides = None\<rparr>
      (Arr4 (1, 3, 3, 1) [[[[1], [2], [3]], [[4], [5], [6]], [[7], [8], [9]]]])
      (Arr4 (4, 2, 1, 1) [[[[1]], [[0]]], [[[1]], [[0]]], [[[1]], [[0]]], [[[1]], [[0::int]]]]) [10] (1, 1)
     = Inr (Arr4 (1, 0, 2, 1) [[]])"
  by code_simp

text \<open>
  C6 fails on the code. \<open>Conv2D.__call__\<close> adds the module-level \<open>biases\<close>, not
  \<open>self.biases\<close>: for a layer with filter 1 and bias 1, the input 2 gives 7 when the
  module-level \<open>biases\<close> is \<open>[5]\<close> (the contract asks for 3), and \<open>NameError\<close>
  when that name is unbound. The library convolution is instantiated here by the
  valid-padding convolution without bias.
\<close>

theorem Conv2D_call_adds_ambient_biases:
  "Conv2D_call (\<lambda>batch filters strides padding. filter_images_v2
         \<lparr>amb_filters = None, amb_biases = None, amb_strides = None\<rparr> batch filters [0] strides)
      \<lparr>amb_filters = None, amb_biases = Some [5], amb_strides = None\<rparr>
      \<lparr>self_filters = Arr4 (1, 1, 1, 1) [[[[1]]]], self_biases = [1], input_channels = 1,
        output_channels = 1, filter_shape = (1, 1), self_strides = (1, 1), self_padding = ''valid'',
        seed = 1234\<rparr>
      (Arr4 (1, 1, 1, 1) [[[[2::int]]]])
     = Inr (Arr4 (1, 1, 1, 1) [[[[7]]]]) \<and>
   Conv2D_call (\<lambda>batch filters strides padding. filter_images_v2
         \<lparr>amb_filters = None, amb_biases = None, amb_strides = None\<rparr> batch filters [0] strides)
      \<lparr>amb_filters = None, amb_biases = None, amb_strides = None\<rparr>
      \<lparr>self_filters = Arr4 (1, 1, 1, 1) [[[[1]]]], self_biases = [1], input_channels = 1,
        output_channels = 1, filter_shape = (1, 1), self_strides = (1, 1), self_padding = ''valid'',
        seed = 1234\<rparr>
      (Arr4 (1, 1, 1, 1) [[[[2::int]]]])
     = Inl NameError"
  by code_simp

text \<open>
  C9. For an empty image batch (first axis of length 0) with an otherwise valid filter
  bank, bias vector and strides, \<open>filter_images_v2\<close> completes without error and
  returns an array of shape \<open>(0, 1 + (H-kH) div sH, 1 + (W-kW) div sW, Cout)\<close> that
  contains no elements.
\<close>

theorem v2_empty_batch:
  assumes "valid_input images filters biases (sH, sW)"
    and "shape4 images = (0, H, W, Cin)" and "shape4 filters = (kH, kW, Cin', Cout)"
  shows "filter_images_v2 g images filters biases (sH, sW) =
           Inr (Arr4 (0, nat (1 + (int H - int kH) div sH), nat (1 + (int W - int kW) div sW), Cout) [])"
  unfolding v2_correct [OF assms(1)]
  using assms(2,3) by (simp add: contract_output_def tab4_def)

theorem v2_empty_batch_witness:
  "filter_images_v2 \<lparr>amb_filters = None, amb_biases = None, amb_strides = None\<rparr>
     (Arr4 (0, 3, 3, 1) []) (Arr4 (2, 2, 1, 2) [[[[1, 0]], [[0, 1]]], [[[0, 2]], [[1, 0::int]]]])
     [10, 20] (1, 1) = Inr (Arr4 (0, 2, 2, 2) [])"
  using v2_empty_batch [of "Arr4 (0, 3, 3, 1) []"
      "Arr4 (2, 2, 1, 2) [[[[1, 0]], [[0, 1]]], [[[0, 2]], [[1, 0::int]]]]" "[10, 20]" 1 1 3 3 1 2 2 1 2]
  by (simp add: valid_input_def wf4_def)

text \<open>
  C10. Whenever the image or the filter bank has exactly one input channel (and the
  strides are positive and the filter fits into the image), \<open>filter_image\<close> returns
  an array of the normal shape \<open>(outH, outW, Cout)\<close>, whatever the other channel count
  is; the witness has 1 image channel and 2 filter channels.
\<close>

theorem filter_image_broadcasts_channels:
  assumes "wf3 img" and "shape3 img = (H, W, ci)"
    and "wf4 filters" and "shape4 filters = (kH, kW, ni, no)"
    and "ci = 1 \<or> ni = 1"
    and "1 \<le> sH" "1 \<le> sW" "kH \<le> H" "kW \<le> W"
  shows "\<exists>y. filter_image g img filters (sH, sW) = Inr y \<and> wf3 y \<and>
             shape3 y = (nat (1 + (int H - int kH) div sH), nat (1 + (int W - int kW) div sW), no)"
proof -
  have "\<exists>d. bdim ni ci = Some d"
    unfolding bdim_def using assms(5) by (cases "ni = ci") auto
  then obtain d where d: "bdim ni ci = Some d" ..
  show ?thesis
    unfolding filter_image_broadcast [OF assms(1-4) d assms(6-9) refl refl]
    by (simp add: wf3_tab3)
qed

theorem filter_image_broadcasts_channels_witness:
  "(\<exists>y. filter_image \<lparr>amb_filters = None, amb_biases = None, amb_strides = None\<rparr>
          (Arr3 (2, 2, 1) [[[1], [2]], [[3], [4::int]]])
          (Arr4 (1, 1, 2, 1) [[[[5], [6]]]]) (1, 1) = Inr y \<and> shape3 y = (2, 2, 1))"
proof -
  have "wf3 (Arr3 (2, 2, 1) [[[1], [2]], [[3], [4::int]]])" "wf4 (Arr4 (1, 1, 2, 1) [[[[5], [6::int]]]])"
    by (simp_all add: wf3_def wf4_def)
  from filter_image_broadcasts_channels [OF this(1) _ this(2), of 2 2 1 1 1 2 1 1 1
      "\<lparr>amb_filters = None, amb_biases = None, amb_strides = None\<rparr>"]
  show ?thesis by auto
qed

text \<open>
  C7 and C8 are not stated. C7 compares the float64 values \<open>output - bias\<close> obtained
  with two bias vectors, and C8 asserts bit-identical results of repeated calls,
  independent of the interpreter's state. The model computes in exact arithmetic with
  functions of their arguments: there \<open>(s + b) - b = s\<close> and the equality of two calls
  hold by the form of the model, where float64 rounds and the program runs on a
  mutable object store.
\<close>

end
